theory Spec2Isabelle
  imports Main "HOL-Library.Word" "HOL-Library.Signed_Division"
begin

unbundle bit_operations_syntax

section \<open>Constants and macros\<close>

text \<open>
  The repository holds two backup engines: \<^verbatim>\<open>src/block/backup.c\<close> (below: the engine)
  and the older \<^verbatim>\<open>src/backup.c\<close> (below: the variant, names suffixed \<open>_var\<close>).
  The C types \<open>int\<close>, \<open>int64_t\<close> and \<open>uint64_t\<close> are modelled by \<open>int\<close>: the values
  are sector and cluster numbers, byte counts and errno codes, far from the limits of
  their types. Division is C's, truncating towards zero (\<open>sdiv\<close>).
\<close>

definition BDRV_SECTOR_SIZE :: int where
  \<comment> \<open>Modelled from the spec: \<^verbatim>\<open>block/block.h\<close> is not among the sources; the spec's
      constants give sector = 512 B.\<close>
  "BDRV_SECTOR_SIZE = 512"

definition BACKUP_CLUSTER_BITS :: nat where
  "BACKUP_CLUSTER_BITS = 16"

definition BACKUP_CLUSTER_SIZE :: int where
  "BACKUP_CLUSTER_SIZE = push_bit BACKUP_CLUSTER_BITS 1"

definition BACKUP_SECTORS_PER_CLUSTER :: int where
  "BACKUP_SECTORS_PER_CLUSTER = BACKUP_CLUSTER_SIZE sdiv BDRV_SECTOR_SIZE"

definition DIV_ROUND_UP :: "int \<Rightarrow> int \<Rightarrow> int" where
  \<comment> \<open>Modelled from the spec: the macro of \<^verbatim>\<open>qemu/osdep.h\<close> is not among the sources;
      the spec reads it as the ceiling of the quotient, which the variant writes out as
      \<^verbatim>\<open>(n + d - 1) / d\<close>.\<close>
  "DIV_ROUND_UP n d = (n + d - 1) sdiv d"

definition MIN_macro :: "int \<Rightarrow> int \<Rightarrow> int" where
  \<comment> \<open>Modelled from the spec: the macro is not among the sources; the spec's \<open>min\<close>.\<close>
  "MIN_macro a b = (if a < b then a else b)"

section \<open>The block layer and the job supervisor, as the engine consumes them\<close>

text \<open>
  The bounce buffer is the memory at \<^verbatim>\<open>bounce_buffer\<close>, read by offset. Its allocation
  (\<^verbatim>\<open>qemu_blockalign\<close>, \<^verbatim>\<open>qemu_vfree\<close>) and the disabled \<^verbatim>\<open>DPRINTF\<close> have no
  effect on the job and are left out.
\<close>

type_synonym buffer = "nat \<Rightarrow> 8 word"

definition buffer_is_zero :: "buffer \<Rightarrow> int \<Rightarrow> bool" where
  \<comment> \<open>Modelled from the spec: \<^verbatim>\<open>util/cutils.c\<close> is not among the sources; true when the
      first \<open>len\<close> bytes are all zero.\<close>
  "buffer_is_zero buf len = list_all (\<lambda>i. buf i = 0) [0 ..< nat len]"

datatype BlockdevOnError =
    BLOCKDEV_ON_ERROR_REPORT
  | BLOCKDEV_ON_ERROR_IGNORE
  | BLOCKDEV_ON_ERROR_ENOSPC
  | BLOCKDEV_ON_ERROR_STOP

datatype BlockErrorAction = BDRV_ACTION_REPORT | BDRV_ACTION_IGNORE | BDRV_ACTION_STOP

datatype device = Source | Target

text \<open>
  Every call the engine makes into the block layer or the job supervisor is recorded,
  with what it returned, in the order the calls are made.
\<close>

datatype io_event =
    GetLength int
      \<comment> \<open>\<^verbatim>\<open>bdrv_getlength(bs)\<close> and its result\<close>
  | Readv int int int
      \<comment> \<open>source read: sector, number of sectors, result\<close>
  | WriteZeroes int int int
      \<comment> \<open>\<^verbatim>\<open>bdrv_co_write_zeroes(target, sector, n)\<close> and its result\<close>
  | Writev int int buffer int
      \<comment> \<open>\<^verbatim>\<open>bdrv_co_writev(target, sector, n, qiov)\<close> and its result\<close>
  | IsCancelled bool
  | CalculateDelay int int
      \<comment> \<open>\<^verbatim>\<open>ratelimit_calculate_delay(limit, n)\<close>: \<open>n\<close> and the delay\<close>
  | SleepNs int
  | BeforeWrite int int int
      \<comment> \<open>a tracked guest write (sector, count) and the status its notifier returned\<close>
  | BeforeRead int int int
      \<comment> \<open>a tracked guest read (sector, count) and the status its hook returned\<close>
  | ErrorAction device BlockdevOnError bool int BlockErrorAction
      \<comment> \<open>\<^verbatim>\<open>block_job_error_action(job, dev, on_err, is_read, error)\<close> and its result\<close>
  | Completed int
      \<comment> \<open>\<^verbatim>\<open>block_job_completed(job, ret)\<close>\<close>

text \<open>
  What the outside answers is a parameter of the model: each answer may depend on the
  moment of the call (the number of calls made so far) and on the call's arguments.
  \<open>tracked_writes\<close> and \<open>tracked_reads\<close> are the guest requests whose hooks run while
  the sweep sleeps.
\<close>

record block_env =
  bdrv_getlength :: "nat \<Rightarrow> int"
  bdrv_co_readv :: "nat \<Rightarrow> int \<Rightarrow> int \<Rightarrow> int \<times> buffer"
  bdrv_co_write_zeroes :: "nat \<Rightarrow> int \<Rightarrow> int \<Rightarrow> int"
  bdrv_co_writev :: "nat \<Rightarrow> int \<Rightarrow> int \<Rightarrow> buffer \<Rightarrow> int"
  block_job_is_cancelled :: "nat \<Rightarrow> bool"
  ratelimit_calculate_delay :: "nat \<Rightarrow> int \<Rightarrow> int"
  block_job_error_action :: "nat \<Rightarrow> device \<Rightarrow> BlockdevOnError \<Rightarrow> bool \<Rightarrow> int \<Rightarrow> BlockErrorAction"
  tracked_writes :: "nat \<Rightarrow> (int \<times> int) list"
  tracked_reads :: "nat \<Rightarrow> (int \<times> int) list"

section \<open>The engine of src/block/backup.c: data\<close>

record HBitmap =
  hb_size :: int
  hb_bits :: "int \<Rightarrow> bool"

definition hbitmap_alloc :: "int \<Rightarrow> HBitmap" where
  \<comment> \<open>Modelled from the spec: \<^verbatim>\<open>util/hbitmap.c\<close> is not among the sources; one bit per
      cluster, all zero at first.\<close>
  "hbitmap_alloc sz = \<lparr>hb_size = sz, hb_bits = (\<lambda>_. False)\<rparr>"

definition hbitmap_get :: "HBitmap \<Rightarrow> int \<Rightarrow> bool" where
  \<comment> \<open>Modelled from the spec: \<open>get(c)\<close>.\<close>
  "hbitmap_get hb item = hb_bits hb item"

definition hbitmap_set :: "HBitmap \<Rightarrow> int \<Rightarrow> int \<Rightarrow> HBitmap" where
  \<comment> \<open>Modelled from the spec: \<open>set(c, 1)\<close>, for \<open>count\<close> items from \<open>start\<close>.\<close>
  "hbitmap_set hb start count =
     hb\<lparr>hb_bits := (\<lambda>c. if start \<le> c \<and> c < start + count then True else hb_bits hb c)\<rparr>"

record CowRequest =
  cr_start :: int
  cr_end :: int

record CoRwlock =
  writer :: bool
  reader :: nat

record BackupBlockJob =
  common_speed :: int
  common_offset :: int
  common_len :: int
  on_source_error :: BlockdevOnError
  on_target_error :: BlockdevOnError
  flush_rwlock :: CoRwlock
  sectors_read :: int
  bitmap :: HBitmap
  inflight_reqs :: "CowRequest list"

text \<open>
  The state the functions pass along: the job, whether the before-write notifier is
  registered on the source, the number of outside calls made so far, and their record.
\<close>

record machine = BackupBlockJob +
  before_write_notifier :: bool
  now :: nat
  trace :: "io_event list"

definition emit :: "io_event \<Rightarrow> machine \<Rightarrow> machine" where
  "emit ev m = m\<lparr>now := now m + 1, trace := trace m @ [ev]\<rparr>"

text \<open>
  A coroutine that waits is resumed by another coroutine only. The model runs one
  invocation at a time, so a wait that would suspend never returns: \<open>None\<close>.
\<close>

definition qemu_co_rwlock_rdlock :: "CoRwlock \<Rightarrow> CoRwlock option" where
  \<comment> \<open>Modelled from the spec: \<^verbatim>\<open>qemu-coroutine-lock.c\<close> is not among the sources;
      shared mode waits while exclusive is held.\<close>
  "qemu_co_rwlock_rdlock l = (if writer l then None else Some (l\<lparr>reader := reader l + 1\<rparr>))"

definition qemu_co_rwlock_wrlock :: "CoRwlock \<Rightarrow> CoRwlock option" where
  \<comment> \<open>Modelled from the spec: exclusive mode waits until every holder has released.\<close>
  "qemu_co_rwlock_wrlock l =
     (if writer l \<or> reader l \<noteq> 0 then None else Some (l\<lparr>writer := True\<rparr>))"

definition qemu_co_rwlock_unlock :: "CoRwlock \<Rightarrow> CoRwlock" where
  \<comment> \<open>Modelled from the spec: releases the mode held.\<close>
  "qemu_co_rwlock_unlock l =
     (if writer l then l\<lparr>writer := False\<rparr> else l\<lparr>reader := reader l - 1\<rparr>)"

definition qemu_co_rwlock_init :: CoRwlock where
  "qemu_co_rwlock_init = \<lparr>writer = False, reader = 0\<rparr>"

section \<open>The engine of src/block/backup.c: functions\<close>

definition wait_for_overlapping_requests :: "machine \<Rightarrow> int \<Rightarrow> int \<Rightarrow> machine option" where
  "wait_for_overlapping_requests job start end' =
     (if list_ex (\<lambda>req. end' > cr_start req \<and> start < cr_end req) (inflight_reqs job)
      then None else Some job)"

definition cow_request_begin :: "machine \<Rightarrow> int \<Rightarrow> int \<Rightarrow> CowRequest \<times> machine" where
  "cow_request_begin job start end' =
     (let req = \<lparr>cr_start = start, cr_end = end'\<rparr>
      in (req, job\<lparr>inflight_reqs := req # inflight_reqs job\<rparr>))"

definition cow_request_end :: "CowRequest \<Rightarrow> machine \<Rightarrow> machine" where
  "cow_request_end req job = job\<lparr>inflight_reqs := remove1 req (inflight_reqs job)\<rparr>"

text \<open>
  The body of the cluster loop of \<^verbatim>\<open>backup_do_cow\<close> for a cluster whose bit is clear
  (lines 134 to 178). The result is the value of \<^verbatim>\<open>ret\<close>, the side that failed
  (\<open>Some True\<close>: the read, \<open>Some False\<close>: the write, \<open>None\<close>: neither) and the state.
\<close>

definition cow_cluster :: "block_env \<Rightarrow> int \<Rightarrow> int \<Rightarrow> machine \<Rightarrow> int \<times> bool option \<times> machine" where
  "cow_cluster e total_sectors start job =
     (let n = MIN_macro BACKUP_SECTORS_PER_CLUSTER (total_sectors - start * BACKUP_SECTORS_PER_CLUSTER);
          iov_len = n * BDRV_SECTOR_SIZE;
          (ret, iov_base) = bdrv_co_readv e (now job) (start * BACKUP_SECTORS_PER_CLUSTER) n;
          job1 = emit (Readv (start * BACKUP_SECTORS_PER_CLUSTER) n ret) job
      in if ret < 0 then (ret, Some True, job1)
         else
          (let (ret2, job2) =
                 (if buffer_is_zero iov_base iov_len
                  then (let r = bdrv_co_write_zeroes e (now job1)
                                  (start * BACKUP_SECTORS_PER_CLUSTER) n
                        in (r, emit (WriteZeroes (start * BACKUP_SECTORS_PER_CLUSTER) n r) job1))
                  else (let r = bdrv_co_writev e (now job1)
                                  (start * BACKUP_SECTORS_PER_CLUSTER) n iov_base
                        in (r, emit (Writev (start * BACKUP_SECTORS_PER_CLUSTER) n iov_base r) job1)))
           in if ret2 < 0 then (ret2, Some False, job2)
              else (ret2, None,
                    job2\<lparr>bitmap := hbitmap_set (bitmap job2) start 1,
                         sectors_read := sectors_read job2 + n,
                         common_offset := common_offset job2 + n * BDRV_SECTOR_SIZE\<rparr>)))"

function cow_loop ::
  "block_env \<Rightarrow> int \<Rightarrow> int \<Rightarrow> int \<Rightarrow> int \<Rightarrow> machine \<Rightarrow> int \<times> bool option \<times> machine" where
  "cow_loop e total_sectors start end' ret job =
     (if start < end' then
        (if hbitmap_get (bitmap job) start
         then cow_loop e total_sectors (start + 1) end' ret job
         else (case cow_cluster e total_sectors start job of
                 (r, Some side, job') \<Rightarrow> (r, Some side, job')
               | (r, None, job') \<Rightarrow> cow_loop e total_sectors (start + 1) end' r job'))
      else (ret, None, job))"
  by pat_completeness auto
termination
  by (relation "measure (\<lambda>(e, total_sectors, start, end', ret, job). nat (end' - start))") auto

declare cow_loop.simps [simp del]

datatype out_param = NULL | OUT

definition store_through :: "out_param \<Rightarrow> bool \<Rightarrow> bool option" where
  \<comment> \<open>\<^verbatim>\<open>if (error_is_read) { *error_is_read = v; }\<close>: what the caller's variable receives\<close>
  "store_through p v = (case p of NULL \<Rightarrow> None | OUT \<Rightarrow> Some v)"

text \<open>
  \<^verbatim>\<open>backup_do_cow\<close> between \<^verbatim>\<open>cow_request_begin\<close> and the label \<^verbatim>\<open>out\<close>: the length
  query and the cluster loop.
\<close>

definition cow_locked ::
  "block_env \<Rightarrow> int \<Rightarrow> int \<Rightarrow> out_param \<Rightarrow> machine \<Rightarrow> int \<times> bool option \<times> machine" where
  "cow_locked e start end' error_is_read job =
     (let total_sectors = bdrv_getlength e (now job);
          job1 = emit (GetLength total_sectors) job
      in if total_sectors < 0 then (total_sectors, store_through error_is_read True, job1)
         else (case cow_loop e (total_sectors sdiv BDRV_SECTOR_SIZE) start end' 0 job1 of
                 (ret, Some side, job2) \<Rightarrow> (ret, store_through error_is_read side, job2)
               | (ret, None, job2) \<Rightarrow> (ret, None, job2)))"

definition backup_do_cow ::
  "block_env \<Rightarrow> int \<Rightarrow> int \<Rightarrow> out_param \<Rightarrow> machine \<Rightarrow> (int \<times> bool option \<times> machine) option" where
  "backup_do_cow e sector_num nb_sectors error_is_read job =
     (case qemu_co_rwlock_rdlock (flush_rwlock job) of
        None \<Rightarrow> None
      | Some l \<Rightarrow>
         (let start = sector_num sdiv BACKUP_SECTORS_PER_CLUSTER;
              end' = DIV_ROUND_UP (sector_num + nb_sectors) BACKUP_SECTORS_PER_CLUSTER
          in case wait_for_overlapping_requests (job\<lparr>flush_rwlock := l\<rparr>) start end' of
               None \<Rightarrow> None
             | Some job1 \<Rightarrow>
                (let (cow_request, job2) = cow_request_begin job1 start end';
                     (ret, side, job3) = cow_locked e start end' error_is_read job2;
                     job4 = cow_request_end cow_request job3
                 in Some (ret, side,
                          job4\<lparr>flush_rwlock := qemu_co_rwlock_unlock (flush_rwlock job4)\<rparr>))))"

record BdrvTrackedRequest =
  req_sector_num :: int
  req_nb_sectors :: int

definition backup_before_write_notify ::
  "block_env \<Rightarrow> BdrvTrackedRequest \<Rightarrow> machine \<Rightarrow> (int \<times> machine) option" where
  "backup_before_write_notify e req job =
     (case backup_do_cow e (req_sector_num req) (req_nb_sectors req) NULL job of
        None \<Rightarrow> None
      | Some (ret, side, job') \<Rightarrow> Some (ret, job'))"

definition backup_error_action ::
  "block_env \<Rightarrow> bool \<Rightarrow> int \<Rightarrow> machine \<Rightarrow> BlockErrorAction \<times> machine" where
  "backup_error_action e read error job =
     (if read
      then (let a = block_job_error_action e (now job) Source (on_source_error job) True error
            in (a, emit (ErrorAction Source (on_source_error job) True error a) job))
      else (let a = block_job_error_action e (now job) Target (on_target_error job) False error
            in (a, emit (ErrorAction Target (on_target_error job) False error a) job)))"

definition job_is_cancelled :: "block_env \<Rightarrow> machine \<Rightarrow> bool \<times> machine" where
  \<comment> \<open>\<^verbatim>\<open>block_job_is_cancelled(&job->common)\<close>\<close>
  "job_is_cancelled e job =
     (let c = block_job_is_cancelled e (now job) in (c, emit (IsCancelled c) job))"

text \<open>
  While the sweep sleeps, the other coroutines of the device run: every tracked guest
  write that arrives calls the notifiers registered on the source before it is
  submitted, and is handed the status they return.
\<close>

fun notify_writes :: "block_env \<Rightarrow> (int \<times> int) list \<Rightarrow> machine \<Rightarrow> machine option" where
  "notify_writes e [] job = Some job"
| "notify_writes e ((s, n) # ws) job =
     (if before_write_notifier job
      then (case backup_before_write_notify e \<lparr>req_sector_num = s, req_nb_sectors = n\<rparr> job of
              None \<Rightarrow> None
            | Some (ret, job') \<Rightarrow> notify_writes e ws (emit (BeforeWrite s n ret) job'))
      else notify_writes e ws job)"

definition block_job_sleep_ns :: "block_env \<Rightarrow> int \<Rightarrow> machine \<Rightarrow> machine option" where
  \<comment> \<open>Modelled from the spec: \<^verbatim>\<open>blockjob.c\<close> is not among the sources; \<open>sleep_ns\<close> is a
      suspension point of the sweep.\<close>
  "block_job_sleep_ns e ns job =
     notify_writes e (tracked_writes e (now job)) (emit (SleepNs ns) job)"

datatype loop_ctl = Break | Continue

text \<open>
  The yield of the sweep (lines 278 to 285 of \<^verbatim>\<open>backup_run\<close>): the rate limiter is asked
  for the delay of the sectors read in the slice, the count is reset, and the job sleeps.
\<close>

definition sweep_yield :: "block_env \<Rightarrow> machine \<Rightarrow> machine option" where
  "sweep_yield e job =
     (if common_speed job \<noteq> 0
      then (let delay_ns = ratelimit_calculate_delay e (now job) (sectors_read job);
                job' = emit (CalculateDelay (sectors_read job) delay_ns) job
            in block_job_sleep_ns e delay_ns (job'\<lparr>sectors_read := 0\<rparr>))
      else block_job_sleep_ns e 0 job)"

text \<open>
  The body of the loop of \<^verbatim>\<open>backup_run\<close> (lines 269 to 305): how the iteration
  leaves (\<^verbatim>\<open>break\<close>, or on to the loop's \<^verbatim>\<open>start++\<close>), and the values of \<^verbatim>\<open>start\<close>
  and \<^verbatim>\<open>ret\<close> at that point. \<^verbatim>\<open>error_is_read\<close> is an uninitialised local: reading it
  when nothing was stored has no defined result.
\<close>

definition backup_run_body ::
  "block_env \<Rightarrow> int \<Rightarrow> int \<Rightarrow> machine \<Rightarrow> (loop_ctl \<times> int \<times> int \<times> machine) option" where
  "backup_run_body e start ret job =
     (let (c1, job1) = job_is_cancelled e job
      in if c1 then Some (Break, start, ret, job1)
         else
          (case sweep_yield e job1 of
             None \<Rightarrow> None
           | Some job2 \<Rightarrow>
              (let (c2, job3) = job_is_cancelled e job2
               in if c2 then Some (Break, start, ret, job3)
                  else
                   (case backup_do_cow e (start * BACKUP_SECTORS_PER_CLUSTER) 1 OUT job3 of
                      None \<Rightarrow> None
                    | Some (ret', error_is_read, job4) \<Rightarrow>
                       (if ret' < 0
                        then (case error_is_read of
                                None \<Rightarrow> None
                              | Some read \<Rightarrow>
                                 (let (action, job5) = backup_error_action e read (- ret') job4
                                  in if action = BDRV_ACTION_REPORT
                                     then Some (Break, start, ret', job5)
                                     else Some (Continue, start - 1, ret', job5)))
                        else Some (Continue, start, ret', job4))))))"

partial_function (option) backup_run_loop ::
  "block_env \<Rightarrow> int \<Rightarrow> int \<Rightarrow> int \<Rightarrow> machine \<Rightarrow> (int \<times> machine) option" where
  "backup_run_loop e end' start ret job =
     (if start < end'
      then (case backup_run_body e start ret job of
              None \<Rightarrow> None
            | Some (ctl, start', ret', job') \<Rightarrow>
               (case ctl of
                  Break \<Rightarrow> Some (ret', job')
                | Continue \<Rightarrow> backup_run_loop e end' (start' + 1) ret' job'))
      else Some (ret, job))"

declare backup_run_loop.simps [code]

text \<open>
  \<^verbatim>\<open>backup_run\<close>. The calls that set up and tear down the target
  (\<^verbatim>\<open>bdrv_set_on_error\<close>, \<^verbatim>\<open>bdrv_iostatus_enable\<close>, \<^verbatim>\<open>bdrv_iostatus_disable\<close>,
  \<^verbatim>\<open>bdrv_delete\<close>) and \<^verbatim>\<open>hbitmap_free\<close> change nothing the job reads afterwards and
  are left out; the result handed to \<^verbatim>\<open>block_job_completed\<close> is recorded and returned.
\<close>

definition backup_run :: "block_env \<Rightarrow> machine \<Rightarrow> (int \<times> machine) option" where
  "backup_run e job =
     (let job0 = job\<lparr>inflight_reqs := [], flush_rwlock := qemu_co_rwlock_init\<rparr>;
          len = bdrv_getlength e (now job0);
          job1 = emit (GetLength len) job0;
          end' = DIV_ROUND_UP (len sdiv BDRV_SECTOR_SIZE) BACKUP_SECTORS_PER_CLUSTER;
          job2 = job1\<lparr>bitmap := hbitmap_alloc end', before_write_notifier := True\<rparr>
      in case backup_run_loop e end' 0 0 job2 of
           None \<Rightarrow> None
         | Some (ret, job3) \<Rightarrow>
            (case qemu_co_rwlock_wrlock (flush_rwlock (job3\<lparr>before_write_notifier := False\<rparr>)) of
               None \<Rightarrow> None
             | Some l \<Rightarrow>
                Some (ret, emit (Completed ret)
                             (job3\<lparr>before_write_notifier := False,
                                   flush_rwlock := qemu_co_rwlock_unlock l\<rparr>))))"

datatype start_result = Invalid_parameter | Started "(int \<times> machine) option"

text \<open>
  \<^verbatim>\<open>backup_start\<close>: \<^verbatim>\<open>block_job_create\<close> (not among the sources) is taken to return a
  zeroed job holding the speed; the coroutine it enters is \<^verbatim>\<open>backup_run\<close>.
\<close>

definition backup_start ::
  "block_env \<Rightarrow> bool \<Rightarrow> int \<Rightarrow> BlockdevOnError \<Rightarrow> BlockdevOnError \<Rightarrow> start_result" where
  "backup_start e bdrv_iostatus_is_enabled speed on_source_err on_target_err =
     (if (on_source_err = BLOCKDEV_ON_ERROR_STOP \<or> on_source_err = BLOCKDEV_ON_ERROR_ENOSPC)
         \<and> \<not> bdrv_iostatus_is_enabled
      then Invalid_parameter
      else Started (backup_run e
             (emit (GetLength (bdrv_getlength e 0))
               \<lparr>common_speed = speed, common_offset = 0, common_len = bdrv_getlength e 0,
                on_source_error = on_source_err, on_target_error = on_target_err,
                flush_rwlock = qemu_co_rwlock_init, sectors_read = 0,
                bitmap = hbitmap_alloc 0, inflight_reqs = [],
                before_write_notifier = False, now = 0, trace = []\<rparr>)))"

section \<open>The variant of src/backup.c\<close>

definition BACKUP_BLOCKS_PER_CLUSTER :: int where
  "BACKUP_BLOCKS_PER_CLUSTER = BACKUP_CLUSTER_SIZE sdiv BDRV_SECTOR_SIZE"

definition BITS_PER_LONG :: int where
  \<comment> \<open>Modelled from the spec: \<^verbatim>\<open>qemu/bitops.h\<close> is not among the sources; the
      \<^verbatim>\<open>unsigned long\<close> of a 64-bit host.\<close>
  "BITS_PER_LONG = 64"

record machine_var =
  speed_var :: int
  offset_var :: int
  len_var :: int
  cluster_size_var :: int
  rwlock_var :: CoRwlock
  sectors_read_var :: int
  bitmap_var :: "64 word list"
  bitmap_size_var :: int
  now_var :: nat
  trace_var :: "io_event list"

definition emit_var :: "io_event \<Rightarrow> machine_var \<Rightarrow> machine_var" where
  "emit_var ev m = m\<lparr>now_var := now_var m + 1, trace_var := trace_var m @ [ev]\<rparr>"

text \<open>
  A failed \<^verbatim>\<open>assert\<close> aborts the process: the function does not return (\<open>None\<close>).
  The same stands for a negative cluster number, whose shift count C leaves undefined.
\<close>

definition bitmap_index_ok :: "machine_var \<Rightarrow> int \<Rightarrow> bool" where
  \<comment> \<open>\<^verbatim>\<open>assert(job->bitmap_size > idx)\<close>, on the array of \<^verbatim>\<open>bitmap_size\<close> words\<close>
  "bitmap_index_ok job cluster_num =
     (0 \<le> cluster_num \<and> cluster_num sdiv BITS_PER_LONG < bitmap_size_var job
      \<and> nat (cluster_num sdiv BITS_PER_LONG) < length (bitmap_var job))"

definition backup_get_bitmap :: "machine_var \<Rightarrow> int \<Rightarrow> bool option" where
  "backup_get_bitmap job cluster_num =
     (let idx = cluster_num sdiv BITS_PER_LONG
      in if \<not> bitmap_index_ok job cluster_num then None
         else (let bit = cluster_num smod BITS_PER_LONG;
                   val = bitmap_var job ! nat idx
               in Some (val AND push_bit (nat bit) 1 \<noteq> 0)))"

definition backup_set_bitmap :: "machine_var \<Rightarrow> int \<Rightarrow> bool \<Rightarrow> machine_var option" where
  "backup_set_bitmap job cluster_num dirty =
     (let idx = cluster_num sdiv BITS_PER_LONG
      in if \<not> bitmap_index_ok job cluster_num then None
         else (let bit = cluster_num smod BITS_PER_LONG;
                   val = bitmap_var job ! nat idx;
                   val' = (if dirty then val OR push_bit (nat bit) 1
                           else val AND NOT (push_bit (nat bit) 1))
               in Some (job\<lparr>bitmap_var := (bitmap_var job)[nat idx := val']\<rparr>)))"

text \<open>
  The body of the variant's cluster loop after the bit has been set (lines 121 to 170):
  the value of \<^verbatim>\<open>ret\<close>, whether the body left by \<^verbatim>\<open>goto out\<close>, and the state.
\<close>

definition cow_cluster_var ::
  "block_env \<Rightarrow> int \<Rightarrow> machine_var \<Rightarrow> int \<times> bool \<times> machine_var" where
  "cow_cluster_var e start job1 =
     (let (r, bounce_buffer) =
            bdrv_co_readv e (now_var job1) (start * BACKUP_BLOCKS_PER_CLUSTER)
              BACKUP_BLOCKS_PER_CLUSTER;
          job2 = emit_var (Readv (start * BACKUP_BLOCKS_PER_CLUSTER)
                             BACKUP_BLOCKS_PER_CLUSTER r) job1
      in if r < 0 then (r, True, job2)
         else
          (let zero = buffer_is_zero bounce_buffer BACKUP_CLUSTER_SIZE;
               job3 = job2\<lparr>sectors_read_var :=
                             sectors_read_var job2 + BACKUP_BLOCKS_PER_CLUSTER\<rparr>
           in if \<not> zero
              then (let r2 = bdrv_co_writev e (now_var job3)
                               (start * BACKUP_BLOCKS_PER_CLUSTER)
                               BACKUP_BLOCKS_PER_CLUSTER bounce_buffer;
                        job4 = emit_var (Writev (start * BACKUP_BLOCKS_PER_CLUSTER)
                                           BACKUP_BLOCKS_PER_CLUSTER bounce_buffer r2) job3
                    in if r2 < 0 then (r2, True, job4) else (r2, False, job4))
              else (r, False, job3)))"

function cow_loop_var ::
  "block_env \<Rightarrow> int \<Rightarrow> int \<Rightarrow> int \<Rightarrow> machine_var \<Rightarrow> (int \<times> machine_var) option" where
  "cow_loop_var e start end' ret job =
     (if start < end' then
        (case backup_get_bitmap job start of
           None \<Rightarrow> None
         | Some True \<Rightarrow> cow_loop_var e (start + 1) end' ret job
         | Some False \<Rightarrow>
            (case backup_set_bitmap job start True of
               None \<Rightarrow> None
             | Some job1 \<Rightarrow>
                (case cow_cluster_var e start job1 of
                   (r, True, job') \<Rightarrow> Some (r, job')
                 | (r, False, job') \<Rightarrow> cow_loop_var e (start + 1) end' r job')))
      else Some (ret, job))"
  by pat_completeness auto
termination
  by (relation "measure (\<lambda>(e, start, end', ret, job). nat (end' - start))") auto

declare cow_loop_var.simps [simp del]

definition backup_do_cow_var ::
  "block_env \<Rightarrow> int \<Rightarrow> int \<Rightarrow> machine_var \<Rightarrow> (int \<times> machine_var) option" where
  "backup_do_cow_var e sector_num nb_sectors job =
     (case qemu_co_rwlock_rdlock (rwlock_var job) of
        None \<Rightarrow> None
      | Some l \<Rightarrow>
         (let start = sector_num sdiv BACKUP_BLOCKS_PER_CLUSTER;
              end' = (sector_num + nb_sectors + BACKUP_BLOCKS_PER_CLUSTER - 1)
                       sdiv BACKUP_BLOCKS_PER_CLUSTER
          in case cow_loop_var e start end' 0 (job\<lparr>rwlock_var := l\<rparr>) of
               None \<Rightarrow> None
             | Some (ret, job1) \<Rightarrow>
                Some (ret, job1\<lparr>rwlock_var := qemu_co_rwlock_unlock (rwlock_var job1)\<rparr>)))"

type_synonym QEMUIOVector = unit

definition backup_before_read ::
  "block_env \<Rightarrow> int \<Rightarrow> int \<Rightarrow> QEMUIOVector \<Rightarrow> machine_var \<Rightarrow> (int \<times> machine_var) option" where
  "backup_before_read e sector_num nb_sectors qiov job =
     backup_do_cow_var e sector_num nb_sectors job"

definition backup_before_write ::
  "block_env \<Rightarrow> int \<Rightarrow> int \<Rightarrow> QEMUIOVector \<Rightarrow> machine_var \<Rightarrow> (int \<times> machine_var) option" where
  "backup_before_write e sector_num nb_sectors qiov job =
     backup_do_cow_var e sector_num nb_sectors job"

type_synonym hook_var =
  "block_env \<Rightarrow> int \<Rightarrow> int \<Rightarrow> QEMUIOVector \<Rightarrow> machine_var \<Rightarrow> (int \<times> machine_var) option"

record BlockJobType =
  before_read :: "hook_var option"
  before_write :: "hook_var option"
  job_type :: string

definition backup_job_type_var :: BlockJobType where
  \<comment> \<open>\<^verbatim>\<open>instance_size\<close> and \<^verbatim>\<open>set_speed\<close> are left out\<close>
  "backup_job_type_var =
     \<lparr>before_read = Some backup_before_read,
      before_write = Some backup_before_write,
      job_type = ''backup''\<rparr>"

definition bdrv_co_backup ::
  "block_env \<Rightarrow> int \<Rightarrow> int \<Rightarrow> machine_var \<Rightarrow> (int \<times> machine_var) option" where
  \<comment> \<open>Modelled from the spec: the function is not among the sources. The comment at its
      call says it triggers the copy of the cluster as a tracked request (the spec's
      sweep invokes the copy for a one-sector range): the job type's \<^verbatim>\<open>before_read\<close>
      hook is run on the range.\<close>
  "bdrv_co_backup e sector_num nb_sectors job =
     (case before_read backup_job_type_var of
        None \<Rightarrow> Some (0, job)
      | Some hook \<Rightarrow> hook e sector_num nb_sectors () job)"

text \<open>
  The block layer runs the job type's hooks for the tracked guest requests that arrive
  while the sweep sleeps: the reads, then the writes.
\<close>

fun run_hooks_var ::
  "block_env \<Rightarrow> bool \<Rightarrow> (int \<times> int) list \<Rightarrow> machine_var \<Rightarrow> machine_var option" where
  "run_hooks_var e is_read [] job = Some job"
| "run_hooks_var e is_read ((s, n) # rs) job =
     (case (if is_read then before_read backup_job_type_var
            else before_write backup_job_type_var) of
        None \<Rightarrow> run_hooks_var e is_read rs job
      | Some hook \<Rightarrow>
         (case hook e s n () job of
            None \<Rightarrow> None
          | Some (ret, job') \<Rightarrow>
             run_hooks_var e is_read rs
               (emit_var (if is_read then BeforeRead s n ret else BeforeWrite s n ret) job')))"

definition block_job_sleep_ns_var :: "block_env \<Rightarrow> int \<Rightarrow> machine_var \<Rightarrow> machine_var option" where
  \<comment> \<open>Modelled from the spec: \<^verbatim>\<open>blockjob.c\<close> is not among the sources; \<open>sleep_ns\<close> is a
      suspension point of the sweep.\<close>
  "block_job_sleep_ns_var e ns job =
     (case run_hooks_var e True (tracked_reads e (now_var job)) (emit_var (SleepNs ns) job) of
        None \<Rightarrow> None
      | Some job' \<Rightarrow> run_hooks_var e False (tracked_writes e (now_var job)) job')"

definition job_is_cancelled_var :: "block_env \<Rightarrow> machine_var \<Rightarrow> bool \<times> machine_var" where
  "job_is_cancelled_var e job =
     (let c = block_job_is_cancelled e (now_var job) in (c, emit_var (IsCancelled c) job))"

definition sweep_yield_var :: "block_env \<Rightarrow> machine_var \<Rightarrow> machine_var option" where
  \<comment> \<open>lines 242 to 249 of the variant's \<^verbatim>\<open>backup_run\<close>\<close>
  "sweep_yield_var e job =
     (if speed_var job \<noteq> 0
      then (let delay_ns = ratelimit_calculate_delay e (now_var job) (sectors_read_var job);
                job' = emit_var (CalculateDelay (sectors_read_var job) delay_ns) job
            in block_job_sleep_ns_var e delay_ns (job'\<lparr>sectors_read_var := 0\<rparr>))
      else block_job_sleep_ns_var e 0 job)"

definition backup_run_body_var ::
  "block_env \<Rightarrow> int \<Rightarrow> int \<Rightarrow> machine_var \<Rightarrow> (loop_ctl \<times> int \<times> int \<times> machine_var) option" where
  "backup_run_body_var e start ret job =
     (let (c1, job1) = job_is_cancelled_var e job
      in if c1 then Some (Break, start, - 1, job1)
         else
          (case sweep_yield_var e job1 of
             None \<Rightarrow> None
           | Some job2 \<Rightarrow>
              (let (c2, job3) = job_is_cancelled_var e job2
               in if c2 then Some (Break, start, - 1, job3)
                  else
                   (case backup_get_bitmap job3 start of
                      None \<Rightarrow> None
                    | Some True \<Rightarrow> Some (Continue, start, ret, job3)
                    | Some False \<Rightarrow>
                       (case bdrv_co_backup e (start * BACKUP_BLOCKS_PER_CLUSTER) 1 job3 of
                          None \<Rightarrow> None
                        | Some (ret', job4) \<Rightarrow>
                           (if ret' < 0 then Some (Break, start, ret', job4)
                            else Some (Continue, start, ret',
                                       job4\<lparr>offset_var := offset_var job4 + BACKUP_CLUSTER_SIZE\<rparr>)))))))"

partial_function (option) backup_run_loop_var ::
  "block_env \<Rightarrow> int \<Rightarrow> int \<Rightarrow> int \<Rightarrow> machine_var \<Rightarrow> (int \<times> machine_var) option" where
  "backup_run_loop_var e end' start ret job =
     (if start < end'
      then (case backup_run_body_var e start ret job of
              None \<Rightarrow> None
            | Some (ctl, start', ret', job') \<Rightarrow>
               (case ctl of
                  Break \<Rightarrow> Some (ret', job')
                | Continue \<Rightarrow> backup_run_loop_var e end' (start' + 1) ret' job'))
      else Some (ret, job))"

declare backup_run_loop_var.simps [code]

text \<open>
  The variant's \<^verbatim>\<open>backup_run\<close>; \<^verbatim>\<open>g_free\<close> of the bitmap and \<^verbatim>\<open>bdrv_delete\<close> of the
  target are left out as above.
\<close>

definition backup_run_var :: "block_env \<Rightarrow> machine_var \<Rightarrow> (int \<times> machine_var) option" where
  "backup_run_var e job =
     (let len = bdrv_getlength e (now_var job);
          job1 = emit_var (GetLength len) job;
          end' = (len sdiv BDRV_SECTOR_SIZE + BACKUP_BLOCKS_PER_CLUSTER - 1)
                   sdiv BACKUP_BLOCKS_PER_CLUSTER
      in case backup_run_loop_var e end' 0 0 job1 of
           None \<Rightarrow> None
         | Some (ret, job2) \<Rightarrow>
            (case qemu_co_rwlock_wrlock (rwlock_var job2) of
               None \<Rightarrow> None
             | Some l \<Rightarrow>
                Some (ret, emit_var (Completed ret)
                             (job2\<lparr>rwlock_var := qemu_co_rwlock_unlock l\<rparr>))))"

definition backup_start_var :: "block_env \<Rightarrow> int \<Rightarrow> (int \<times> machine_var) option" where
  "backup_start_var e speed =
     (let len = bdrv_getlength e 0;
          bitmap_size = (len sdiv BDRV_SECTOR_SIZE + BACKUP_BLOCKS_PER_CLUSTER * BITS_PER_LONG - 1)
                          sdiv (BACKUP_BLOCKS_PER_CLUSTER * BITS_PER_LONG)
      in backup_run_var e
           (emit_var (GetLength len)
             \<lparr>speed_var = speed, offset_var = 0, len_var = len,
              cluster_size_var = BACKUP_CLUSTER_SIZE, rwlock_var = qemu_co_rwlock_init,
              sectors_read_var = 0, bitmap_var = replicate (nat bitmap_size) 0,
              bitmap_size_var = bitmap_size, now_var = 0, trace_var = []\<rparr>))"

section \<open>Vocabulary of the statements\<close>

text \<open>
  A job is idle when no copy-on-write is in flight and the flush lock is not held for
  writing: the state between two invocations, and the state \<^verbatim>\<open>backup_run\<close> sets up.
\<close>

definition idle :: "machine \<Rightarrow> bool" where
  "idle job = (\<not> writer (flush_rwlock job) \<and> inflight_reqs job = [])"

definition new_events :: "machine \<Rightarrow> machine \<Rightarrow> io_event list" where
  \<comment> \<open>the outside calls made between two states\<close>
  "new_events job job' = drop (length (trace job)) (trace job')"

definition cluster_sectors :: "int \<Rightarrow> int \<Rightarrow> int" where
  \<comment> \<open>the spec's \<open>n = min(128, total_sectors - c * 128)\<close>\<close>
  "cluster_sectors total_sectors c = min 128 (total_sectors - c * 128)"



definition same_job_frame :: "machine \<Rightarrow> machine \<Rightarrow> bool" where
  "same_job_frame job job' =
     (inflight_reqs job' = inflight_reqs job \<and> flush_rwlock job' = flush_rwlock job
      \<and> common_len job' = common_len job \<and> common_speed job' = common_speed job
      \<and> on_source_error job' = on_source_error job \<and> on_target_error job' = on_target_error job
      \<and> before_write_notifier job' = before_write_notifier job)"

definition target_op :: "block_env \<Rightarrow> nat \<Rightarrow> int \<Rightarrow> int \<Rightarrow> buffer \<Rightarrow> io_event" where
  \<comment> \<open>the target operation for \<open>n\<close> sectors at \<open>s\<close> that zero detection selects for a
      buffer, issued at the moment \<open>t\<close>, with its result\<close>
  "target_op e t s n buf =
     (if buffer_is_zero buf (n * 512)
      then WriteZeroes s n (bdrv_co_write_zeroes e t s n)
      else Writev s n buf (bdrv_co_writev e t s n buf))"

definition target_result :: "io_event \<Rightarrow> int" where
  "target_result ev = (case ev of WriteZeroes s n r \<Rightarrow> r | Writev s n buf r \<Rightarrow> r | _ \<Rightarrow> 0)"

definition call_side_result :: "io_event \<Rightarrow> (bool \<times> int) option" where
  \<comment> \<open>for a call into the block layer made by the copy: whether it is on the source side
      (the length query and the read) and what it returned\<close>
  "call_side_result ev =
     (case ev of
        GetLength r \<Rightarrow> Some (True, r)
      | Readv s n r \<Rightarrow> Some (True, r)
      | WriteZeroes s n r \<Rightarrow> Some (False, r)
      | Writev s n buf r \<Rightarrow> Some (False, r)
      | _ \<Rightarrow> None)"

definition cow_entered :: "machine \<Rightarrow> int \<Rightarrow> int \<Rightarrow> int \<Rightarrow> machine" where
  \<comment> \<open>an idle job once \<^verbatim>\<open>backup_do_cow\<close> has taken the lock, registered its request for
      the clusters from \<open>start\<close> to \<open>end'\<close> and queried the length \<open>len\<close>\<close>
  "cow_entered job start end' len =
     emit (GetLength len)
       (job\<lparr>flush_rwlock := (flush_rwlock job)\<lparr>reader := reader (flush_rwlock job) + 1\<rparr>,
            inflight_reqs := [\<lparr>cr_start = start, cr_end = end'\<rparr>]\<rparr>)"

definition cow_left :: "machine \<Rightarrow> machine \<Rightarrow> machine" where
  \<comment> \<open>the job at the return of \<^verbatim>\<open>backup_do_cow\<close>: the request removed, the lock released\<close>
  "cow_left job job2 = job2\<lparr>inflight_reqs := [], flush_rwlock := flush_rwlock job\<rparr>"

text \<open>
  The calls of a copy, from the moment \<open>t\<close> on, follow zero detection: they are reads, a
  read that fails is the last call, and a read that succeeds is followed by exactly one
  target operation on the same sectors, the one the buffer it delivered selects; a
  target operation that fails is the last call.
\<close>

fun zero_detect_ok :: "block_env \<Rightarrow> nat \<Rightarrow> io_event list \<Rightarrow> bool" where
  "zero_detect_ok e t [] = True"
| "zero_detect_ok e t [Readv s n r] = (r < 0)"
| "zero_detect_ok e t (Readv s n r # w # evs) =
     (0 \<le> r \<and> w = target_op e (t + 1) s n (snd (bdrv_co_readv e t s n))
      \<and> (target_result w < 0 \<longrightarrow> evs = [])
      \<and> zero_detect_ok e (t + 2) evs)"
| "zero_detect_ok e t (ev # evs) = False"

definition io_range :: "io_event \<Rightarrow> (int \<times> int) option" where
  \<comment> \<open>the first sector and the number of sectors of a read or a target operation\<close>
  "io_range ev =
     (case ev of
        Readv s n r \<Rightarrow> Some (s, n)
      | WriteZeroes s n r \<Rightarrow> Some (s, n)
      | Writev s n buf r \<Rightarrow> Some (s, n)
      | _ \<Rightarrow> None)"

definition copied_clusters :: "int \<Rightarrow> int \<Rightarrow> machine \<Rightarrow> machine \<Rightarrow> int set" where
  \<comment> \<open>the clusters from \<open>start\<close> to \<open>end'\<close> whose bit is clear in the first state and set
      in the second\<close>
  "copied_clusters start end' job job' =
     {c \<in> {start ..< end'}. hbitmap_get (bitmap job') c \<and> \<not> hbitmap_get (bitmap job) c}"

definition is_error_action :: "io_event \<Rightarrow> bool" where
  \<comment> \<open>a consultation of the error-action policy\<close>
  "is_error_action ev = (case ev of ErrorAction dev on_err is_read err a \<Rightarrow> True | _ \<Rightarrow> False)"


definition sweep_end :: "block_env \<Rightarrow> machine \<Rightarrow> int" where
  \<comment> \<open>the number of clusters \<^verbatim>\<open>backup_run\<close> computes: the bound of its loop\<close>
  "sweep_end e job =
     DIV_ROUND_UP (bdrv_getlength e (now job) sdiv BDRV_SECTOR_SIZE) BACKUP_SECTORS_PER_CLUSTER"

definition sweep_entered :: "block_env \<Rightarrow> machine \<Rightarrow> machine" where
  \<comment> \<open>the job at the head of the loop of \<^verbatim>\<open>backup_run\<close>, before the first iteration\<close>
  "sweep_entered e job =
     (emit (GetLength (bdrv_getlength e (now job)))
        (job\<lparr>inflight_reqs := [], flush_rwlock := qemu_co_rwlock_init\<rparr>))
       \<lparr>bitmap := hbitmap_alloc (sweep_end e job), before_write_notifier := True\<rparr>"

definition completion_code :: "start_result \<Rightarrow> int option" where
  \<comment> \<open>the result a started job hands to \<^verbatim>\<open>block_job_completed\<close>\<close>
  "completion_code s = (case s of Started (Some (ret, job)) \<Rightarrow> Some ret | _ \<Rightarrow> None)"

definition calls_made :: "start_result \<Rightarrow> io_event list" where
  \<comment> \<open>the outside calls of a started job that has completed\<close>
  "calls_made s = (case s of Started (Some (ret, job)) \<Rightarrow> trace job | _ \<Rightarrow> [])"

text \<open>
  The progress counter accounts for the clusters whose bit is set: \<open>offset\<close> is the
  number of bytes of those among the first \<open>K\<close> clusters of a source of \<open>tot\<close> sectors.
\<close>

definition accounted :: "int \<Rightarrow> int \<Rightarrow> machine \<Rightarrow> bool" where
  "accounted K tot job =
     (common_offset job
        = 512 * (\<Sum>c \<in> {c \<in> {0 ..< K}. hbitmap_get (bitmap job) c}. cluster_sectors tot c))"

definition steady_source :: "block_env \<Rightarrow> int \<Rightarrow> bool" where
  \<comment> \<open>the length of the source does not change: every query returns \<open>len\<close> or fails\<close>
  "steady_source e len = (0 \<le> len \<and> (\<forall>t. bdrv_getlength e t = len \<or> bdrv_getlength e t < 0))"

definition writes_within :: "block_env \<Rightarrow> int \<Rightarrow> bool" where
  \<comment> \<open>every tracked guest write lies within the \<open>tot\<close> sectors of the source\<close>
  "writes_within e tot =
     (\<forall>t. \<forall>(s, n) \<in> set (tracked_writes e t). 0 \<le> s \<and> 0 \<le> n \<and> s + n \<le> tot)"

text \<open>
  The states of the sweep over \<open>K\<close> clusters from the job \<open>job0\<close>: the values of
  \<^verbatim>\<open>start\<close> and \<^verbatim>\<open>ret\<close> and the job at the head of the loop and after each iteration,
  whether the run ever completes or not.
\<close>

inductive sweep_state :: "block_env \<Rightarrow> int \<Rightarrow> machine \<Rightarrow> int \<times> int \<times> machine \<Rightarrow> bool"
  for e :: block_env and K :: int and job0 :: machine where
  head: "sweep_state e K job0 (0, 0, job0)"
| iteration: "sweep_state e K job0 (start, ret, job) \<Longrightarrow> start < K
     \<Longrightarrow> backup_run_body e start ret job = Some (ctl, start', ret', job')
     \<Longrightarrow> sweep_state e K job0 (start' + 1, ret', job')"

definition sweep_inv :: "int \<Rightarrow> machine \<Rightarrow> bool" where
  \<comment> \<open>the job is idle and its counter accounts for the bits set, on a source of \<open>len\<close>
      bytes\<close>
  "sweep_inv len job =
     (idle job \<and> accounted (DIV_ROUND_UP (len sdiv 512) 128) (len sdiv 512) job)"

section \<open>Concrete runs\<close>

text \<open>
  A source of one sector (512 bytes) that reads as zeros; every call succeeds, nobody
  cancels, no guest request arrives, and the error action is to report.
\<close>

definition env_zero :: block_env where
  "env_zero =
     \<lparr>bdrv_getlength = (\<lambda>t. 512),
      bdrv_co_readv = (\<lambda>t s n. (0, \<lambda>i. 0)),
      bdrv_co_write_zeroes = (\<lambda>t s n. 0),
      bdrv_co_writev = (\<lambda>t s n buf. 0),
      block_job_is_cancelled = (\<lambda>t. False),
      ratelimit_calculate_delay = (\<lambda>t n. 0),
      block_job_error_action = (\<lambda>t dev on_err is_read err. BDRV_ACTION_REPORT),
      tracked_writes = (\<lambda>t. []),
      tracked_reads = (\<lambda>t. [])\<rparr>"

definition env_read_fails :: block_env where
  \<comment> \<open>the same source, every read of which fails with \<open>EIO\<close>\<close>
  "env_read_fails = env_zero\<lparr>bdrv_co_readv := (\<lambda>t s n. (- 5, \<lambda>i. 0))\<rparr>"

definition job_512 :: machine where
  \<comment> \<open>the job of the engine on that source, as \<^verbatim>\<open>backup_run\<close> sets it up\<close>
  "job_512 =
     \<lparr>common_speed = 0, common_offset = 0, common_len = 512,
      on_source_error = BLOCKDEV_ON_ERROR_REPORT, on_target_error = BLOCKDEV_ON_ERROR_REPORT,
      flush_rwlock = qemu_co_rwlock_init, sectors_read = 0,
      bitmap = hbitmap_alloc 1, inflight_reqs = [],
      before_write_notifier = True, now = 0, trace = []\<rparr>"

definition job_var_512 :: machine_var where
  \<comment> \<open>the job of the variant on that source, as its \<^verbatim>\<open>backup_start\<close> sets it up\<close>
  "job_var_512 =
     \<lparr>speed_var = 0, offset_var = 0, len_var = 512, cluster_size_var = 65536,
      rwlock_var = qemu_co_rwlock_init, sectors_read_var = 0,
      bitmap_var = [0], bitmap_size_var = 1, now_var = 0, trace_var = []\<rparr>"

definition env_ones :: block_env where
  \<comment> \<open>the same source, reading as bytes of value one\<close>
  "env_ones = env_zero\<lparr>bdrv_co_readv := (\<lambda>t s n. (0, \<lambda>i. 1))\<rparr>"

definition env_cancelled :: block_env where
  \<comment> \<open>the job is cancelled before the sweep starts\<close>
  "env_cancelled = env_zero\<lparr>block_job_is_cancelled := (\<lambda>t. True)\<rparr>"

definition env_cancelled_asleep :: block_env where
  \<comment> \<open>the job is cancelled from the moment 2 on\<close>
  "env_cancelled_asleep = env_zero\<lparr>block_job_is_cancelled := (\<lambda>t. 2 \<le> t)\<rparr>"

definition env_ignore_read_fails :: block_env where
  \<comment> \<open>every read fails with \<open>EIO\<close>, and the error action is to ignore\<close>
  "env_ignore_read_fails =
     env_read_fails\<lparr>block_job_error_action := (\<lambda>t dev on_err is_read err. BDRV_ACTION_IGNORE)\<rparr>"

definition env_retry_cancelled :: block_env where
  \<comment> \<open>every read fails, the error action is to ignore, and the job is cancelled from the
      moment 8 on: after the first failed copy of the sweep\<close>
  "env_retry_cancelled = env_ignore_read_fails\<lparr>block_job_is_cancelled := (\<lambda>t. 8 \<le> t)\<rparr>"

definition job_512_paced :: machine where
  \<comment> \<open>the one-sector job with a speed set\<close>
  "job_512_paced = job_512\<lparr>common_speed := 1024\<rparr>"

definition job_var_64k :: machine_var where
  \<comment> \<open>the job of the variant on a source of one whole cluster\<close>
  "job_var_64k = job_var_512\<lparr>len_var := 65536\<rparr>"

definition env_write_fails :: block_env where
  \<comment> \<open>every write-zeroes to the target fails with \<open>ENOSPC\<close>\<close>
  "env_write_fails = env_zero\<lparr>bdrv_co_write_zeroes := (\<lambda>t s n. - 28)\<rparr>"

definition env_length_fails :: block_env where
  \<comment> \<open>every length query fails with \<open>ENOMEDIUM\<close>\<close>
  "env_length_fails = env_zero\<lparr>bdrv_getlength := (\<lambda>t. - 123)\<rparr>"

definition env_read_fails_once :: block_env where
  \<comment> \<open>the reads before the moment 6 fail with \<open>EIO\<close>, the later ones succeed; the error
      action is to ignore\<close>
  "env_read_fails_once =
     env_zero\<lparr>bdrv_co_readv := (\<lambda>t s n. if t < 6 then (- 5, \<lambda>i. 0) else (0, \<lambda>i. 0)),
              block_job_error_action := (\<lambda>t dev on_err is_read err. BDRV_ACTION_IGNORE)\<rparr>"

definition job_512_ignore :: machine where
  \<comment> \<open>the one-sector job whose policy for the source is to ignore\<close>
  "job_512_ignore = job_512\<lparr>on_source_error := BLOCKDEV_ON_ERROR_IGNORE\<rparr>"

section \<open>The constants\<close>

lemma sectors_per_cluster: "BACKUP_SECTORS_PER_CLUSTER = 128"
  by (simp add: BACKUP_SECTORS_PER_CLUSTER_def BACKUP_CLUSTER_SIZE_def BACKUP_CLUSTER_BITS_def
      BDRV_SECTOR_SIZE_def signed_divide_int_def)

lemma blocks_per_cluster: "BACKUP_BLOCKS_PER_CLUSTER = 128"
  by (simp add: BACKUP_BLOCKS_PER_CLUSTER_def BACKUP_CLUSTER_SIZE_def BACKUP_CLUSTER_BITS_def
      BDRV_SECTOR_SIZE_def signed_divide_int_def)

lemma cluster_size: "BACKUP_CLUSTER_SIZE = 65536"
  by (simp add: BACKUP_CLUSTER_SIZE_def BACKUP_CLUSTER_BITS_def)

lemma buffer_is_zero_iff: "buffer_is_zero buf len = (\<forall>i < nat len. buf i = 0)"
  by (auto simp: buffer_is_zero_def list_all_iff)

lemma buffer_zeros_is_zero: "buffer_is_zero (\<lambda>i. 0) len"
  by (simp add: buffer_is_zero_iff)

lemma buffer_ones_not_zero: "0 < len \<Longrightarrow> \<not> buffer_is_zero (\<lambda>i. 1) len"
  by (auto simp: buffer_is_zero_iff intro: exI[of _ 0])

lemma MIN_macro_min: "MIN_macro a b = min a b"
  by (simp add: MIN_macro_def min_def)

lemma hbitmap_get_set: "hbitmap_get (hbitmap_set hb c 1) c' = (c' = c \<or> hbitmap_get hb c')"
  by (auto simp: hbitmap_get_def hbitmap_set_def)

section \<open>The cluster loop of backup\_do\_cow\<close>

lemma cow_loop_stop: "\<not> start < end' \<Longrightarrow> cow_loop e tot start end' ret job = (ret, None, job)"
  by (subst cow_loop.simps) simp

lemma cow_loop_skip:
  "start < end' \<Longrightarrow> hbitmap_get (bitmap job) start
   \<Longrightarrow> cow_loop e tot start end' ret job = cow_loop e tot (start + 1) end' ret job"
  by (subst cow_loop.simps) simp

lemma cow_loop_fail:
  "start < end' \<Longrightarrow> \<not> hbitmap_get (bitmap job) start
   \<Longrightarrow> cow_cluster e tot start job = (r, Some side, job')
   \<Longrightarrow> cow_loop e tot start end' ret job = (r, Some side, job')"
  by (subst cow_loop.simps) simp

lemma cow_loop_copy:
  "start < end' \<Longrightarrow> \<not> hbitmap_get (bitmap job) start
   \<Longrightarrow> cow_cluster e tot start job = (r, None, job')
   \<Longrightarrow> cow_loop e tot start end' ret job = cow_loop e tot (start + 1) end' r job'"
  by (subst cow_loop.simps) simp

text \<open>
  Induction along the loop: it stops, skips a cluster already copied, fails on a cluster,
  or copies a cluster and goes on.
\<close>

lemma cow_loop_induct [case_names stop skip fail copy]:
  assumes "\<And>start end' ret job. \<not> start < end' \<Longrightarrow> P start end' ret job (ret, None, job)"
    and "\<And>start end' ret job res. start < end' \<Longrightarrow> hbitmap_get (bitmap job) start
           \<Longrightarrow> res = cow_loop e tot (start + 1) end' ret job
           \<Longrightarrow> P (start + 1) end' ret job res \<Longrightarrow> P start end' ret job res"
    and "\<And>start end' ret job r side job'. start < end' \<Longrightarrow> \<not> hbitmap_get (bitmap job) start
           \<Longrightarrow> cow_cluster e tot start job = (r, Some side, job')
           \<Longrightarrow> P start end' ret job (r, Some side, job')"
    and "\<And>start end' ret job r job' res. start < end' \<Longrightarrow> \<not> hbitmap_get (bitmap job) start
           \<Longrightarrow> cow_cluster e tot start job = (r, None, job')
           \<Longrightarrow> res = cow_loop e tot (start + 1) end' r job'
           \<Longrightarrow> P (start + 1) end' r job' res \<Longrightarrow> P start end' ret job res"
  shows "P start end' ret job (cow_loop e tot start end' ret job)"
proof (induction "nat (end' - start)" arbitrary: start ret job)
  case 0
  then have "\<not> start < end'" by simp
  then show ?case using assms(1) by (simp add: cow_loop_stop)
next
  case (Suc k)
  then have lt: "start < end'" and k: "k = nat (end' - (start + 1))" by linarith+
  show ?case
  proof (cases "hbitmap_get (bitmap job) start")
    case True
    from assms(2)[OF lt True refl Suc.hyps(1)[OF k]]
    show ?thesis using lt True by (simp add: cow_loop_skip)
  next
    case clear: False
    obtain r sd job' where cc: "cow_cluster e tot start job = (r, sd, job')"
      by (cases "cow_cluster e tot start job") auto
    show ?thesis
    proof (cases sd)
      case None
      have cc': "cow_cluster e tot start job = (r, None, job')"
        using cc None by simp
      from assms(4)[OF lt clear cc' refl Suc.hyps(1)[OF k]]
      show ?thesis using lt clear cc' by (simp add: cow_loop_copy)
    next
      case (Some b)
      with cc lt clear assms(3) show ?thesis by (simp add: cow_loop_fail)
    qed
  qed
qed

lemma cow_cluster_frame:
  "cow_cluster e tot c job = (r, sd, job') \<Longrightarrow> same_job_frame job job'"
  by (auto simp: cow_cluster_def same_job_frame_def Let_def emit_def split: prod.splits if_splits)

lemma cow_cluster_fail:
  "cow_cluster e tot c job = (r, Some b, job')
   \<Longrightarrow> r < 0 \<and> bitmap job' = bitmap job \<and> common_offset job' = common_offset job
       \<and> sectors_read job' = sectors_read job"
  by (auto simp: cow_cluster_def Let_def emit_def split: prod.splits if_splits)

lemma cow_cluster_copy:
  "cow_cluster e tot c job = (r, None, job')
   \<Longrightarrow> 0 \<le> r \<and> bitmap job' = hbitmap_set (bitmap job) c 1
       \<and> common_offset job' = common_offset job + cluster_sectors tot c * 512
       \<and> sectors_read job' = sectors_read job + cluster_sectors tot c"
  by (auto simp: cow_cluster_def Let_def emit_def sectors_per_cluster BDRV_SECTOR_SIZE_def
        MIN_macro_min cluster_sectors_def split: prod.splits if_splits)

lemma cow_cluster_read_failed:
  "cow_cluster e tot c job = (r, Some True, job')
   \<Longrightarrow> trace job' = trace job @ [Readv (c * 128) (cluster_sectors tot c) r]
       \<and> now job' = now job + 1
       \<and> fst (bdrv_co_readv e (now job) (c * 128) (cluster_sectors tot c)) = r"
  by (auto simp: cow_cluster_def Let_def emit_def sectors_per_cluster BDRV_SECTOR_SIZE_def
        MIN_macro_min cluster_sectors_def split: prod.splits if_splits)

lemma cow_cluster_wrote:
  assumes "cow_cluster e tot c job = (r, sd, job')" and "sd \<noteq> Some True"
  shows "0 \<le> fst (bdrv_co_readv e (now job) (c * 128) (cluster_sectors tot c))"
    and "trace job' = trace job @
           [Readv (c * 128) (cluster_sectors tot c)
              (fst (bdrv_co_readv e (now job) (c * 128) (cluster_sectors tot c))),
            target_op e (now job + 1) (c * 128) (cluster_sectors tot c)
              (snd (bdrv_co_readv e (now job) (c * 128) (cluster_sectors tot c)))]"
    and "now job' = now job + 2"
    and "sd = None \<longleftrightarrow> 0 \<le> r"
    and "sd = Some False \<longleftrightarrow> r < 0"
    and "r = target_result (target_op e (now job + 1) (c * 128) (cluster_sectors tot c)
              (snd (bdrv_co_readv e (now job) (c * 128) (cluster_sectors tot c))))"
  using assms
  by (auto simp: cow_cluster_def Let_def emit_def sectors_per_cluster BDRV_SECTOR_SIZE_def
        MIN_macro_min cluster_sectors_def target_op_def target_result_def
        split: prod.splits if_splits)

lemma new_events_append: "trace job' = trace job @ evs \<Longrightarrow> new_events job job' = evs"
  by (simp add: new_events_def)

lemma cow_cluster_extends:
  assumes "cow_cluster e tot c job = (r, sd, job')"
  shows "\<exists>evs. trace job' = trace job @ evs \<and> now job' = now job + length evs \<and> evs \<noteq> []"
proof (cases "sd = Some True")
  case True
  with assms cow_cluster_read_failed[of e tot c job r job'] show ?thesis by auto
next
  case False
  from cow_cluster_wrote(2,3)[OF assms False] show ?thesis by auto
qed

lemma cow_loop_extends:
  assumes "cow_loop e tot start end' ret job = (r, sd, job')"
  shows "\<exists>evs. trace job' = trace job @ evs \<and> now job' = now job + length evs"
proof -
  define P where "P = (\<lambda>(start::int) (end'::int) (ret::int) (job::machine)
      (res :: int \<times> bool option \<times> machine).
      \<exists>evs. trace (snd (snd res)) = trace job @ evs \<and> now (snd (snd res)) = now job + length evs)"
  have "P start end' ret job (cow_loop e tot start end' ret job)"
  proof (rule cow_loop_induct[where P = P and e = e and tot = tot], goal_cases)
    case 1 then show ?case by (simp add: P_def)
  next
    case 2 then show ?case by (auto simp: P_def)
  next
    case (3 start end' ret job r side job')
    then show ?case using cow_cluster_extends[of e tot start job r "Some side" job']
      by (auto simp: P_def)
  next
    case (4 start end' ret job r job' res)
    then show ?case using cow_cluster_extends[of e tot start job r None job']
      by (auto simp: P_def)
  qed
  then show ?thesis using assms by (simp add: P_def)
qed

lemma new_events_trans:
  assumes "\<exists>evs. trace job1 = trace job @ evs" and "\<exists>evs. trace job2 = trace job1 @ evs"
  shows "new_events job job2 = new_events job job1 @ new_events job1 job2"
  using assms by (auto simp: new_events_def)


lemma cow_loop_result:
  assumes "cow_loop e tot start end' ret job = (r, sd, job')"
  shows "(sd = None \<longrightarrow> (0 \<le> ret \<longrightarrow> 0 \<le> r))
       \<and> (\<forall>b. sd = Some b \<longrightarrow> r < 0 \<and> new_events job job' \<noteq> []
               \<and> call_side_result (last (new_events job job')) = Some (b, r))"
proof -
  define P where "P = (\<lambda>(start::int) (end'::int) (ret::int) (job::machine)
      (res :: int \<times> bool option \<times> machine).
      (fst (snd res) = None \<longrightarrow> (0 \<le> ret \<longrightarrow> 0 \<le> fst res))
       \<and> (\<forall>b. fst (snd res) = Some b \<longrightarrow> fst res < 0 \<and> new_events job (snd (snd res)) \<noteq> []
               \<and> call_side_result (last (new_events job (snd (snd res)))) = Some (b, fst res)))"
  have "P start end' ret job (cow_loop e tot start end' ret job)"
  proof (rule cow_loop_induct[where P = P and e = e and tot = tot], goal_cases)
    case 1 then show ?case by (simp add: P_def)
  next
    case 2 then show ?case by (auto simp: P_def)
  next
    case (3 start end' ret job r side job')
    show ?case
    proof (cases side)
      case True
      with 3 cow_cluster_read_failed[of e tot start job r job'] cow_cluster_fail[of e tot start job r side job']
      show ?thesis by (auto simp: P_def new_events_def call_side_result_def)
    next
      case False
      with 3 cow_cluster_wrote[of e tot start job r "Some side" job']
      show ?thesis
        by (auto simp: P_def new_events_def call_side_result_def target_op_def target_result_def)
    qed
  next
    case (4 start end' ret job r job' res)
    obtain r2 sd2 job2 where res: "res = (r2, sd2, job2)" by (cases res) auto
    have loop: "cow_loop e tot (start + 1) end' r job' = (r2, sd2, job2)"
      using 4(4) res by simp
    have split: "new_events job job2 = new_events job job' @ new_events job' job2"
      using new_events_trans[of job' job job2] cow_cluster_extends[OF 4(3)] cow_loop_extends[OF loop]
      by blast
    have "0 \<le> r" using cow_cluster_copy[OF 4(3)] by simp
    then show ?case using 4(5) split res by (auto simp: P_def)
  qed
  then show ?thesis using assms by (simp add: P_def)
qed


lemma cow_loop_bits:
  assumes "cow_loop e tot start end' ret job = (r, sd, job')"
  shows "(hbitmap_get (bitmap job) c \<longrightarrow> hbitmap_get (bitmap job') c)
       \<and> (c < start \<or> end' \<le> c \<longrightarrow> hbitmap_get (bitmap job') c = hbitmap_get (bitmap job) c)"
proof -
  define P where "P = (\<lambda>start end' (ret::int) (job::machine) (res :: int \<times> bool option \<times> machine).
          (hbitmap_get (bitmap job) c \<longrightarrow> hbitmap_get (bitmap (snd (snd res))) c)
        \<and> (c < start \<or> end' \<le> c
             \<longrightarrow> hbitmap_get (bitmap (snd (snd res))) c = hbitmap_get (bitmap job) c))"
  have "P start end' ret job (cow_loop e tot start end' ret job)"
  proof (rule cow_loop_induct[where P = P and e = e and tot = tot], goal_cases)
    case 1 then show ?case by (simp add: P_def)
  next
    case 2 then show ?case by (auto simp: P_def)
  next
    case (3 start end' ret job r side job')
    then show ?case using cow_cluster_fail[of e tot start job r side job'] by (simp add: P_def)
  next
    case (4 start end' ret job r job' res)
    then show ?case using cow_cluster_copy[of e tot start job r job']
      by (auto simp: hbitmap_get_set P_def)
  qed
  then show ?thesis using assms by (simp add: P_def)
qed

lemma cow_loop_frame:
  assumes "cow_loop e tot start end' ret job = (r, sd, job')"
  shows "same_job_frame job job'"
proof -
  define P where "P = (\<lambda>(start::int) (end'::int) (ret::int) (job::machine)
     (res :: int \<times> bool option \<times> machine). same_job_frame job (snd (snd res)))"
  have "P start end' ret job (cow_loop e tot start end' ret job)"
  proof (rule cow_loop_induct[where P = P and e = e and tot = tot], goal_cases)
    case 1 then show ?case by (simp add: same_job_frame_def P_def)
  next
    case 2 then show ?case by (auto simp: P_def)
  next
    case (3 start end' ret job r side job')
    then show ?case using cow_cluster_frame[of e tot start job r "Some side" job']
      by (simp add: P_def)
  next
    case (4 start end' ret job r job' res)
    then show ?case using cow_cluster_frame[of e tot start job r None job']
      by (auto simp: same_job_frame_def P_def)
  qed
  then show ?thesis using assms by (simp add: P_def)
qed

lemma cow_loop_zero_detect:
  assumes "cow_loop e tot start end' ret job = (r, sd, job')"
  shows "zero_detect_ok e (now job) (new_events job job')"
proof -
  define P where "P = (\<lambda>(start::int) (end'::int) (ret::int) (job::machine)
      (res :: int \<times> bool option \<times> machine).
      zero_detect_ok e (now job) (new_events job (snd (snd res))))"
  have "P start end' ret job (cow_loop e tot start end' ret job)"
  proof (rule cow_loop_induct[where P = P and e = e and tot = tot], goal_cases)
    case 1 then show ?case by (simp add: P_def new_events_def)
  next
    case 2 then show ?case by (auto simp: P_def)
  next
    case (3 start end' ret job r side job')
    show ?case
    proof (cases side)
      case True
      with 3 cow_cluster_read_failed[of e tot start job r job'] cow_cluster_fail[of e tot start job r side job']
      show ?thesis by (auto simp: P_def new_events_def)
    next
      case False
      with 3 cow_cluster_wrote[of e tot start job r "Some side" job']
      show ?thesis by (auto simp: P_def new_events_def)
    qed
  next
    case (4 start end' ret job r job' res)
    obtain r2 sd2 job2 where res: "res = (r2, sd2, job2)" by (cases res) auto
    have loop: "cow_loop e tot (start + 1) end' r job' = (r2, sd2, job2)"
      using 4(4) res by simp
    have split: "new_events job job2 = new_events job job' @ new_events job' job2"
      using new_events_trans[of job' job job2] cow_cluster_extends[OF 4(3)] cow_loop_extends[OF loop]
      by blast
    note w = cow_cluster_wrote[OF 4(3)]
    have "0 \<le> r" using cow_cluster_copy[OF 4(3)] by simp
    then show ?case
      using 4(5) split res w(1,2,3,6) by (simp add: P_def new_events_def)
  qed
  then show ?thesis using assms by (simp add: P_def)
qed

lemma cow_loop_ranges:
  assumes "cow_loop e tot start end' ret job = (r, sd, job')"
    and "ev \<in> set (new_events job job')"
  shows "\<exists>c. start \<le> c \<and> c < end' \<and> \<not> hbitmap_get (bitmap job) c
             \<and> io_range ev = Some (c * 128, cluster_sectors tot c)"
proof -
  define P where "P = (\<lambda>(start::int) (end'::int) (ret::int) (job::machine)
      (res :: int \<times> bool option \<times> machine).
      ev \<in> set (new_events job (snd (snd res)))
      \<longrightarrow> (\<exists>c. start \<le> c \<and> c < end' \<and> \<not> hbitmap_get (bitmap job) c
             \<and> io_range ev = Some (c * 128, cluster_sectors tot c)))"
  have "P start end' ret job (cow_loop e tot start end' ret job)"
  proof (rule cow_loop_induct[where P = P and e = e and tot = tot], goal_cases)
    case 1 then show ?case by (simp add: P_def new_events_def)
  next
    case (2 start end' ret job res)
    then show ?case by (auto simp: P_def intro: order_trans[of start "start + 1"])
  next
    case (3 start end' ret job r side job')
    show ?case
    proof (cases side)
      case True
      with 3 cow_cluster_read_failed[of e tot start job r job']
      show ?thesis by (auto simp: P_def new_events_def io_range_def)
    next
      case False
      with 3 cow_cluster_wrote[of e tot start job r "Some side" job']
      show ?thesis by (auto simp: P_def new_events_def io_range_def target_op_def)
    qed
  next
    case (4 start end' ret job r job' res)
    obtain r2 sd2 job2 where res: "res = (r2, sd2, job2)" by (cases res) auto
    have loop: "cow_loop e tot (start + 1) end' r job' = (r2, sd2, job2)"
      using 4(4) res by simp
    have split: "new_events job job2 = new_events job job' @ new_events job' job2"
      using new_events_trans[of job' job job2] cow_cluster_extends[OF 4(3)] cow_loop_extends[OF loop]
      by blast
    note w = cow_cluster_wrote[OF 4(3)]
    have first: "ev \<in> set (new_events job job')
       \<Longrightarrow> io_range ev = Some (start * 128, cluster_sectors tot start)"
      using w(2) by (auto simp: new_events_def io_range_def target_op_def)
    have bits: "\<And>c. c \<noteq> start \<Longrightarrow> hbitmap_get (bitmap job') c = hbitmap_get (bitmap job) c"
      using cow_cluster_copy[OF 4(3)] by (simp add: hbitmap_get_set)
    show ?case
      unfolding P_def
    proof
      assume "ev \<in> set (new_events job (snd (snd res)))"
      then consider "ev \<in> set (new_events job job')" | "ev \<in> set (new_events job' job2)"
        using split res by auto
      then show "\<exists>c. start \<le> c \<and> c < end' \<and> \<not> hbitmap_get (bitmap job) c
             \<and> io_range ev = Some (c * 128, cluster_sectors tot c)"
      proof cases
        case 1
        then show ?thesis using first 4(1,2) by auto
      next
        case 2
        then obtain c where "start + 1 \<le> c" "c < end'" "\<not> hbitmap_get (bitmap job') c"
            "io_range ev = Some (c * 128, cluster_sectors tot c)"
          using 4(5) res by (auto simp: P_def)
        then show ?thesis using bits[of c] by (intro exI[of _ c]) auto
      qed
    qed
  qed
  then show ?thesis using assms by (simp add: P_def)
qed

lemma copied_clusters_step:
  assumes "start < end'"
  shows "copied_clusters start end' job job'
         = (if hbitmap_get (bitmap job') start \<and> \<not> hbitmap_get (bitmap job) start
            then insert start (copied_clusters (start + 1) end' job job')
            else copied_clusters (start + 1) end' job job')"
proof -
  have iv: "{start ..< end'} = insert start {start + 1 ..< end'}"
    using assms by auto
  show ?thesis unfolding copied_clusters_def iv by auto
qed

lemma copied_clusters_finite: "finite (copied_clusters start end' job job')"
  by (rule finite_subset[of _ "{start ..< end'}"]) (auto simp: copied_clusters_def)

lemma copied_clusters_notin: "start \<notin> copied_clusters (start + 1) end' job job'"
  by (simp add: copied_clusters_def)

lemma cow_loop_accounting:
  assumes "cow_loop e tot start end' ret job = (r, sd, job')"
  shows "sectors_read job' = sectors_read job
           + (\<Sum>c \<in> copied_clusters start end' job job'. cluster_sectors tot c)"
    and "common_offset job' = common_offset job
           + 512 * (\<Sum>c \<in> copied_clusters start end' job job'. cluster_sectors tot c)"
proof -
  define P where "P = (\<lambda>(start::int) (end'::int) (ret::int) (job::machine)
      (res :: int \<times> bool option \<times> machine).
      sectors_read (snd (snd res)) = sectors_read job
           + (\<Sum>c \<in> copied_clusters start end' job (snd (snd res)). cluster_sectors tot c)
      \<and> common_offset (snd (snd res)) = common_offset job
           + 512 * (\<Sum>c \<in> copied_clusters start end' job (snd (snd res)). cluster_sectors tot c))"
  have "P start end' ret job (cow_loop e tot start end' ret job)"
  proof (rule cow_loop_induct[where P = P and e = e and tot = tot], goal_cases)
    case 1 then show ?case by (simp add: P_def copied_clusters_def)
  next
    case (2 start end' ret job res)
    then show ?case by (simp add: P_def copied_clusters_step)
  next
    case (3 start end' ret job r side job')
    then show ?case using cow_cluster_fail[of e tot start job r side job']
      by (simp add: P_def copied_clusters_def)
  next
    case (4 start end' ret job r job' res)
    obtain r2 sd2 job2 where res: "res = (r2, sd2, job2)" by (cases res) auto
    have loop: "cow_loop e tot (start + 1) end' r job' = (r2, sd2, job2)"
      using 4(4) res by simp
    note cp = cow_cluster_copy[OF 4(3)]
    have set1: "hbitmap_get (bitmap job') start" using cp by (simp add: hbitmap_get_set)
    then have set2: "hbitmap_get (bitmap job2) start" using cow_loop_bits[OF loop] by blast
    have same: "copied_clusters (start + 1) end' job' job2 = copied_clusters (start + 1) end' job job2"
      using cp by (auto simp: copied_clusters_def hbitmap_get_set)
    have all: "copied_clusters start end' job job2
                 = insert start (copied_clusters (start + 1) end' job job2)"
      using copied_clusters_step[OF 4(1), of job job2] set2 4(2) by simp
    show ?case
      using 4(5) res cp same all copied_clusters_finite[of "start + 1" end' job job2]
        copied_clusters_notin[of start end' job job2]
      by (simp add: P_def algebra_simps)
  qed
  then show "sectors_read job' = sectors_read job
           + (\<Sum>c \<in> copied_clusters start end' job job'. cluster_sectors tot c)"
    and "common_offset job' = common_offset job
           + 512 * (\<Sum>c \<in> copied_clusters start end' job job'. cluster_sectors tot c)"
    using assms by (simp_all add: P_def)
qed

section \<open>backup\_do\_cow on an idle job\<close>

lemma backup_do_cow_unfold:
  assumes "idle job"
  shows "backup_do_cow e sn nb p job =
     Some (let start = sn sdiv 128; end' = DIV_ROUND_UP (sn + nb) 128;
               len = bdrv_getlength e (now job);
               job1 = cow_entered job start end' len
           in if len < 0 then (len, store_through p True, cow_left job job1)
              else (case cow_loop e (len sdiv 512) start end' 0 job1 of
                      (ret, sd, job2) \<Rightarrow>
                        (ret, (case sd of None \<Rightarrow> None | Some b \<Rightarrow> store_through p b),
                         cow_left job job2)))"
proof -
  define start where "start = sn sdiv 128"
  define end' where "end' = DIV_ROUND_UP (sn + nb) 128"
  define len where "len = bdrv_getlength e (now job)"
  define job1 where "job1 = cow_entered job start end' len"
  obtain ret sd job2 where loop: "cow_loop e (len sdiv 512) start end' 0 job1 = (ret, sd, job2)"
    by (cases "cow_loop e (len sdiv 512) start end' 0 job1") auto
  have fr: "same_job_frame job1 job2" using cow_loop_frame[OF loop] .
  have w: "\<not> writer (flush_rwlock job)" and q: "inflight_reqs job = []"
    using assms by (simp_all add: idle_def)
  show ?thesis
    using w q loop fr
    unfolding start_def[symmetric] end'_def[symmetric] len_def[symmetric] 
    apply (simp add: backup_do_cow_def qemu_co_rwlock_rdlock_def wait_for_overlapping_requests_def
        cow_request_begin_def cow_request_end_def cow_locked_def Let_def sectors_per_cluster
        BDRV_SECTOR_SIZE_def start_def[symmetric] end'_def[symmetric] len_def[symmetric]
        split: prod.splits option.splits)
    apply (auto simp: cow_entered_def cow_left_def emit_def same_job_frame_def job1_def
                  qemu_co_rwlock_unlock_def split: option.splits)
    done
qed

lemma cow_entered_fields:
  "trace (cow_entered job start end' len) = trace job @ [GetLength len]"
  "now (cow_entered job start end' len) = now job + 1"
  "bitmap (cow_entered job start end' len) = bitmap job"
  "common_offset (cow_entered job start end' len) = common_offset job"
  "sectors_read (cow_entered job start end' len) = sectors_read job"
  "common_len (cow_entered job start end' len) = common_len job"
  "common_speed (cow_entered job start end' len) = common_speed job"
  "on_source_error (cow_entered job start end' len) = on_source_error job"
  "on_target_error (cow_entered job start end' len) = on_target_error job"
  "before_write_notifier (cow_entered job start end' len) = before_write_notifier job"
  by (simp_all add: cow_entered_def emit_def)

lemma cow_left_fields:
  "trace (cow_left job job2) = trace job2"
  "now (cow_left job job2) = now job2"
  "bitmap (cow_left job job2) = bitmap job2"
  "common_offset (cow_left job job2) = common_offset job2"
  "sectors_read (cow_left job job2) = sectors_read job2"
  "common_len (cow_left job job2) = common_len job2"
  "common_speed (cow_left job job2) = common_speed job2"
  "on_source_error (cow_left job job2) = on_source_error job2"
  "on_target_error (cow_left job job2) = on_target_error job2"
  "before_write_notifier (cow_left job job2) = before_write_notifier job2"
  "inflight_reqs (cow_left job job2) = []"
  "flush_rwlock (cow_left job job2) = flush_rwlock job"
  by (simp_all add: cow_left_def)

lemma idle_cow_left: "idle job \<Longrightarrow> idle (cow_left job job2)"
  by (simp add: idle_def cow_left_def)

text \<open>What an invocation on an idle job returns, in terms of the cluster loop.\<close>

lemma backup_do_cow_cases:
  assumes "idle job"
  obtains (length_failed) len where
      "len = bdrv_getlength e (now job)" "len < 0"
      "backup_do_cow e sn nb p job =
         Some (len, store_through p True,
               cow_left job (cow_entered job (sn sdiv 128) (DIV_ROUND_UP (sn + nb) 128) len))"
  | (looped) len ret sd job2 where
      "len = bdrv_getlength e (now job)" "0 \<le> len"
      "cow_loop e (len sdiv 512) (sn sdiv 128) (DIV_ROUND_UP (sn + nb) 128) 0
         (cow_entered job (sn sdiv 128) (DIV_ROUND_UP (sn + nb) 128) len) = (ret, sd, job2)"
      "backup_do_cow e sn nb p job =
         Some (ret, (case sd of None \<Rightarrow> None | Some b \<Rightarrow> store_through p b), cow_left job job2)"
proof (cases "bdrv_getlength e (now job) < 0")
  case True
  then show ?thesis
    using backup_do_cow_unfold[OF assms, of e sn nb p] length_failed[of "bdrv_getlength e (now job)"]
    by (simp add: Let_def)
next
  case False
  obtain ret sd job2 where loop:
    "cow_loop e (bdrv_getlength e (now job) sdiv 512) (sn sdiv 128) (DIV_ROUND_UP (sn + nb) 128) 0
         (cow_entered job (sn sdiv 128) (DIV_ROUND_UP (sn + nb) 128) (bdrv_getlength e (now job)))
     = (ret, sd, job2)"
    using prod_cases3 by blast
  show ?thesis
    using False loop backup_do_cow_unfold[OF assms, of e sn nb p]
      looped[of "bdrv_getlength e (now job)" ret sd job2]
    by (simp add: Let_def)
qed

text \<open>The calls of an invocation: the length query, then those of the cluster loop.\<close>

lemma backup_do_cow_looped_events:
  assumes "cow_loop e tot start end' 0 (cow_entered job start end' len) = (ret, sd, job2)"
  shows "new_events job (cow_left job job2)
           = GetLength len # new_events (cow_entered job start end' len) job2"
    and "trace (cow_left job job2) \<noteq> []"
    and "last (trace (cow_left job job2))
           = (if new_events (cow_entered job start end' len) job2 = [] then GetLength len
              else last (new_events (cow_entered job start end' len) job2))"
proof -
  obtain evs where evs: "trace job2 = trace (cow_entered job start end' len) @ evs"
    using cow_loop_extends[OF assms] by blast
  then show "new_events job (cow_left job job2)
           = GetLength len # new_events (cow_entered job start end' len) job2"
    and "trace (cow_left job job2) \<noteq> []"
    and "last (trace (cow_left job job2))
           = (if new_events (cow_entered job start end' len) job2 = [] then GetLength len
              else last (new_events (cow_entered job start end' len) job2))"
    by (simp_all add: new_events_def cow_left_fields cow_entered_fields)
qed

lemma cluster_sectors_in_range:
  assumes "0 \<le> sn" and "0 \<le> nb" and "sn + nb \<le> tot"
    and "sn sdiv 128 \<le> c" and "c < DIV_ROUND_UP (sn + nb) 128"
  shows "0 \<le> c * 128 \<and> 0 < cluster_sectors tot c \<and> c * 128 + cluster_sectors tot c \<le> tot"
proof -
  have s: "sn sdiv 128 = sn div 128" using assms(1) by (simp add: signed_divide_int_def sgn_if)
  have e: "DIV_ROUND_UP (sn + nb) 128 = (sn + nb + 127) div 128"
    using assms(1,2) by (simp add: DIV_ROUND_UP_def signed_divide_int_def sgn_if)
  have "0 \<le> c" using assms(1,4) s by (smt (verit) div_int_pos_iff)
  moreover have "c * 128 < sn + nb" using assms(5) e by linarith
  ultimately show ?thesis using assms(3) by (auto simp: cluster_sectors_def)
qed

lemma short_final_cluster:
  "0 \<le> tot \<Longrightarrow> tot mod 128 \<noteq> 0
   \<Longrightarrow> cluster_sectors tot (tot div 128) = tot mod 128 \<and> cluster_sectors tot (tot div 128) < 128"
  unfolding cluster_sectors_def by (simp add: minus_div_mult_eq_mod)

lemma io_within_device:
  assumes "idle job"
    and "0 \<le> sector_num" and "0 \<le> nb_sectors"
    and "sector_num + nb_sectors \<le> bdrv_getlength e (now job) sdiv 512"
  shows "\<exists>ret side job'. backup_do_cow e sector_num nb_sectors p job = Some (ret, side, job')
      \<and> (\<forall>ev \<in> set (tl (new_events job job')).
            \<exists>c. io_range ev = Some (c * 128, cluster_sectors (bdrv_getlength e (now job) sdiv 512) c)
               \<and> 0 \<le> c * 128 \<and> 0 < cluster_sectors (bdrv_getlength e (now job) sdiv 512) c
               \<and> c * 128 + cluster_sectors (bdrv_getlength e (now job) sdiv 512) c
                    \<le> bdrv_getlength e (now job) sdiv 512)"
  using assms(1)
proof (cases rule: backup_do_cow_cases[where e = e and sn = sector_num and nb = nb_sectors and p = p])
  case (length_failed len)
  then show ?thesis
    by (simp add: cow_left_fields cow_entered_fields new_events_def)
next
  case (looped len ret sd job2)
  note ev = backup_do_cow_looped_events[OF looped(3)]
  have "\<exists>c. io_range ev = Some (c * 128, cluster_sectors (len sdiv 512) c)
               \<and> 0 \<le> c * 128 \<and> 0 < cluster_sectors (len sdiv 512) c
               \<and> c * 128 + cluster_sectors (len sdiv 512) c \<le> len sdiv 512"
    if "ev \<in> set (tl (new_events job (cow_left job job2)))" for ev
  proof -
    from that ev(1) have "ev \<in> set (new_events (cow_entered job (sector_num sdiv 128)
        (DIV_ROUND_UP (sector_num + nb_sectors) 128) len) job2)" by simp
    from cow_loop_ranges[OF looped(3) this]
    obtain c where c: "sector_num sdiv 128 \<le> c" "c < DIV_ROUND_UP (sector_num + nb_sectors) 128"
        "io_range ev = Some (c * 128, cluster_sectors (len sdiv 512) c)" by blast
    from cluster_sectors_in_range[OF assms(2,3) _ c(1,2), of "len sdiv 512"] assms(4) looped(1) c(3)
    show ?thesis by blast
  qed
  then show ?thesis using looped(1,4) by auto
qed


section \<open>The sweep keeps the job idle\<close>

lemma backup_do_cow_idle:
  assumes "idle job"
  shows "\<exists>ret side job'. backup_do_cow e sn nb p job = Some (ret, side, job')
      \<and> idle job' \<and> same_job_frame job job'
      \<and> (\<forall>ev \<in> set (new_events job job'). \<not> is_error_action ev)
      \<and> (ret < 0 \<and> p = OUT \<longrightarrow> side \<noteq> None)"
  using assms
proof (cases rule: backup_do_cow_cases[where e = e and sn = sn and nb = nb and p = p])
  case (length_failed len)
  then show ?thesis using assms
    by (auto simp: cow_left_fields cow_entered_fields new_events_def is_error_action_def
        same_job_frame_def idle_def store_through_def)
next
  case (looped len ret sd job2)
  note ev = backup_do_cow_looped_events[OF looped(3)]
  have fr: "same_job_frame job (cow_left job job2)"
    using cow_loop_frame[OF looped(3)] assms
    by (simp add: same_job_frame_def cow_left_fields cow_entered_fields idle_def)
  have noea: "\<not> is_error_action ev" if "ev \<in> set (new_events job (cow_left job job2))" for ev
  proof (cases "ev = GetLength len")
    case True then show ?thesis by (simp add: is_error_action_def)
  next
    case False
    with that ev(1) cow_loop_ranges[OF looped(3), of ev]
    show ?thesis by (auto simp: is_error_action_def io_range_def split: io_event.splits)
  qed
  have side: "ret < 0 \<and> p = OUT \<longrightarrow> sd \<noteq> None"
    using cow_loop_result[OF looped(3)] by auto
  show ?thesis
    using looped(4) fr noea side idle_cow_left[OF assms, of job2]
    by (auto simp: store_through_def split: option.splits)
qed

lemma notify_writes_idle:
  assumes "idle job"
  shows "\<exists>job'. notify_writes e ws job = Some job' \<and> idle job' \<and> same_job_frame job job'
           \<and> (\<forall>ev \<in> set (new_events job job'). \<not> is_error_action ev)
           \<and> (\<exists>evs. trace job' = trace job @ evs)"
  using assms
proof (induction ws arbitrary: job)
  case Nil
  then show ?case by (simp add: same_job_frame_def new_events_def)
next
  case (Cons w ws)
  obtain s n where w: "w = (s, n)" by (cases w) auto
  show ?case
  proof (cases "before_write_notifier job")
    case False
    then show ?thesis using Cons w by simp
  next
    case True
    from backup_do_cow_idle[OF Cons.prems, of e s n NULL]
    obtain ret side job1 where d: "backup_do_cow e s n NULL job = Some (ret, side, job1)"
        "idle job1" "same_job_frame job job1"
        "\<forall>ev \<in> set (new_events job job1). \<not> is_error_action ev" by blast
    define job2 where "job2 = emit (BeforeWrite s n ret) job1"
    have i2: "idle job2" using d(2) by (simp add: job2_def idle_def emit_def)
    have f2: "same_job_frame job job2" using d(3) by (simp add: job2_def same_job_frame_def emit_def)
    from Cons.IH[OF i2] obtain job' evs where r: "notify_writes e ws job2 = Some job'" "idle job'"
        "same_job_frame job2 job'" "\<forall>ev \<in> set (new_events job2 job'). \<not> is_error_action ev"
        "trace job' = trace job2 @ evs" by blast
    have ext1: "\<exists>evs. trace job1 = trace job @ evs"
    proof -
      from Cons.prems show ?thesis
      proof (cases rule: backup_do_cow_cases[where e = e and sn = s and nb = n and p = NULL])
        case (length_failed len)
        then show ?thesis using d(1) by (auto simp: cow_left_fields cow_entered_fields)
      next
        case (looped len ret' sd job3)
        from cow_loop_extends[OF looped(3)] looped(4) d(1)
        show ?thesis by (auto simp: cow_left_fields cow_entered_fields)
      qed
    qed
    then obtain evs1 where evs1: "trace job1 = trace job @ evs1" by blast
    have t2: "trace job2 = trace job @ evs1 @ [BeforeWrite s n ret]"
      using evs1 by (simp add: job2_def emit_def)
    have ne: "new_events job job' = evs1 @ [BeforeWrite s n ret] @ new_events job2 job'"
      using t2 r(5) by (simp add: new_events_def)
    have ne1: "new_events job job1 = evs1" using evs1 by (simp add: new_events_def)
    have "notify_writes e (w # ws) job = Some job'"
      using True w d(1) r(1) by (simp add: backup_before_write_notify_def job2_def)
    moreover have "same_job_frame job job'" using f2 r(3) by (simp add: same_job_frame_def)
    moreover have "\<forall>ev \<in> set (new_events job job'). \<not> is_error_action ev"
      using ne ne1 d(4) r(4) by (auto simp: is_error_action_def)
    moreover have "\<exists>evs. trace job' = trace job @ evs" using t2 r(5) by simp
    ultimately show ?thesis using r(2) by blast
  qed
qed

lemma sweep_yield_idle:
  assumes "idle job"
  shows "\<exists>job'. sweep_yield e job = Some job' \<and> idle job' \<and> same_job_frame job job'"
proof (cases "common_speed job \<noteq> 0")
  case True
  define d where "d = ratelimit_calculate_delay e (now job) (sectors_read job)"
  define job1 where "job1 = emit (SleepNs d) ((emit (CalculateDelay (sectors_read job) d) job)\<lparr>sectors_read := 0\<rparr>)"
  have i1: "idle job1" using assms by (simp add: job1_def idle_def emit_def)
  have f1: "same_job_frame job job1" by (simp add: job1_def same_job_frame_def emit_def)
  from notify_writes_idle[OF i1, of e "tracked_writes e (Suc (now job))"]
  show ?thesis using True f1
    by (auto simp: sweep_yield_def block_job_sleep_ns_def Let_def d_def job1_def same_job_frame_def emit_def)
next
  case False
  define job1 where "job1 = emit (SleepNs 0) job"
  have i1: "idle job1" using assms by (simp add: job1_def idle_def emit_def)
  have f1: "same_job_frame job job1" by (simp add: job1_def same_job_frame_def emit_def)
  from notify_writes_idle[OF i1, of e "tracked_writes e (now job)"]
  show ?thesis using False f1
    by (auto simp: sweep_yield_def block_job_sleep_ns_def Let_def job1_def same_job_frame_def emit_def)
qed

section \<open>The cluster loop of the variant\<close>



section \<open>The loop of backup\_run\<close>

lemma backup_run_loop_break:
  "start < end' \<Longrightarrow> backup_run_body e start ret job = Some (Break, start', ret', job')
   \<Longrightarrow> backup_run_loop e end' start ret job = Some (ret', job')"
  by (subst backup_run_loop.simps) simp

lemma backup_run_loop_continue:
  "start < end' \<Longrightarrow> backup_run_body e start ret job = Some (Continue, start', ret', job')
   \<Longrightarrow> backup_run_loop e end' start ret job = backup_run_loop e end' (start' + 1) ret' job'"
  by (subst backup_run_loop.simps) simp

lemma backup_run_loop_var_break:
  "start < end' \<Longrightarrow> backup_run_body_var e start ret job = Some (Break, start', ret', job')
   \<Longrightarrow> backup_run_loop_var e end' start ret job = Some (ret', job')"
  by (subst backup_run_loop_var.simps) simp

lemma backup_run_unfold:
  "backup_run e job =
     (case backup_run_loop e (sweep_end e job) 0 0 (sweep_entered e job) of
        None \<Rightarrow> None
      | Some (ret, job3) \<Rightarrow>
         (case qemu_co_rwlock_wrlock (flush_rwlock job3) of
            None \<Rightarrow> None
          | Some l \<Rightarrow>
             Some (ret, emit (Completed ret)
                          (job3\<lparr>before_write_notifier := False,
                                flush_rwlock := qemu_co_rwlock_unlock l\<rparr>))))"
  by (simp add: backup_run_def sweep_end_def sweep_entered_def Let_def emit_def
      split: option.splits prod.splits)

section \<open>Evaluation of the engine on concrete runs\<close>

lemmas eval_main = backup_start_def backup_run_def backup_run_loop.simps backup_run_body_def
  sweep_yield_def job_is_cancelled_def emit_def block_job_sleep_ns_def backup_error_action_def
  backup_before_write_notify_def backup_do_cow_def cow_locked_def cow_loop.simps cow_cluster_def
  wait_for_overlapping_requests_def cow_request_begin_def cow_request_end_def store_through_def
  hbitmap_alloc_def hbitmap_get_def hbitmap_set_def DIV_ROUND_UP_def MIN_macro_def
  qemu_co_rwlock_rdlock_def qemu_co_rwlock_wrlock_def qemu_co_rwlock_unlock_def qemu_co_rwlock_init_def
  sectors_per_cluster cluster_size BDRV_SECTOR_SIZE_def signed_divide_int_def buffer_zeros_is_zero buffer_ones_not_zero
  Let_def

section \<open>Evaluation of the variant on concrete runs\<close>

lemmas eval_var = backup_start_var_def backup_run_var_def backup_run_loop_var.simps
  backup_run_body_var_def sweep_yield_var_def job_is_cancelled_var_def emit_var_def block_job_sleep_ns_var_def
  backup_get_bitmap_def backup_set_bitmap_def bitmap_index_ok_def bdrv_co_backup_def
  backup_job_type_var_def backup_before_read_def backup_before_write_def backup_do_cow_var_def
  cow_loop_var.simps cow_cluster_var_def
  qemu_co_rwlock_rdlock_def qemu_co_rwlock_wrlock_def qemu_co_rwlock_unlock_def qemu_co_rwlock_init_def
  blocks_per_cluster cluster_size BDRV_SECTOR_SIZE_def BITS_PER_LONG_def signed_divide_int_def signed_modulo_int_def buffer_zeros_is_zero buffer_ones_not_zero
  Let_def

lemmas eval_envs = env_zero_def env_read_fails_def env_ones_def env_cancelled_def
  env_cancelled_asleep_def env_ignore_read_fails_def env_retry_cancelled_def
  env_write_fails_def env_length_fails_def env_read_fails_once_def job_512_ignore_def
  job_512_def job_512_paced_def job_var_512_def job_var_64k_def

lemma idle_job_512: "idle job_512"
  by (simp add: idle_def job_512_def qemu_co_rwlock_init_def)


section \<open>The progress counter of the engine stays within the length\<close>

lemma cluster_sectors_prefix:
  assumes "0 \<le> tot" and "int k * 128 < tot + 128"
  shows "(\<Sum>c \<in> {0 ..< int k}. cluster_sectors tot c) = min tot (int k * 128)"
  using assms(2)
proof (induction k)
  case 0
  then show ?case using assms(1) by simp
next
  case (Suc k)
  have iv: "{0 ..< int (Suc k)} = insert (int k) {0 ..< int k}" by auto
  have "(\<Sum>c \<in> {0 ..< int k}. cluster_sectors tot c) = min tot (int k * 128)"
    using Suc by simp
  then show ?case using Suc.prems unfolding iv
    by (simp add: cluster_sectors_def min_def)
qed

lemma clusters_cover_source:
  assumes "0 \<le> tot"
  shows "(\<Sum>c \<in> {0 ..< DIV_ROUND_UP tot 128}. cluster_sectors tot c) = tot"
proof -
  define K where "K = DIV_ROUND_UP tot 128"
  have K: "K = (tot + 127) div 128"
    using assms by (simp add: K_def DIV_ROUND_UP_def signed_divide_int_def sgn_if)
  then have "0 \<le> K" using assms by simp
  then obtain k where k: "K = int k" using nonneg_int_cases by blast
  have "int k * 128 < tot + 128" and "tot \<le> int k * 128" using K k by linarith+
  with cluster_sectors_prefix[OF assms, of k] show ?thesis
    unfolding K_def[symmetric] k by simp
qed

lemma cluster_sectors_pos:
  assumes "0 \<le> tot" and "0 \<le> c" and "c < DIV_ROUND_UP tot 128"
  shows "0 < cluster_sectors tot c"
proof -
  have "DIV_ROUND_UP tot 128 = (tot + 127) div 128"
    using assms(1) by (simp add: DIV_ROUND_UP_def signed_divide_int_def sgn_if)
  then have "c * 128 < tot" using assms(3) by linarith
  then show ?thesis by (simp add: cluster_sectors_def)
qed

lemma accounted_bounds:
  assumes "0 \<le> tot" and "accounted (DIV_ROUND_UP tot 128) tot job"
  shows "0 \<le> common_offset job \<and> common_offset job \<le> 512 * tot"
proof -
  define K where "K = DIV_ROUND_UP tot 128"
  define S where "S = {c \<in> {0 ..< K}. hbitmap_get (bitmap job) c}"
  have nonneg: "0 \<le> cluster_sectors tot c" if "c \<in> {0 ..< K}" for c
    using cluster_sectors_pos[OF assms(1), of c] that by (simp add: K_def less_imp_le)
  have "(\<Sum>c \<in> S. cluster_sectors tot c) \<le> (\<Sum>c \<in> {0 ..< K}. cluster_sectors tot c)"
    by (rule sum_mono2) (auto simp: S_def nonneg)
  moreover have "0 \<le> (\<Sum>c \<in> S. cluster_sectors tot c)"
    by (rule sum_nonneg) (auto simp: S_def nonneg)
  ultimately show ?thesis
    using assms(2) clusters_cover_source[OF assms(1)]
    by (simp add: accounted_def K_def S_def)
qed

lemma sectors_nonneg: "0 \<le> len \<Longrightarrow> 0 \<le> (len :: int) sdiv 512"
  by (simp add: signed_divide_int_def sgn_if pos_imp_zdiv_nonneg_iff)

lemma backup_do_cow_accounted:
  assumes idle: "idle job" and steady: "steady_source e len"
    and acc: "accounted (DIV_ROUND_UP (len sdiv 512) 128) (len sdiv 512) job"
    and lo: "0 \<le> sn sdiv 128"
    and hi: "DIV_ROUND_UP (sn + nb) 128 \<le> DIV_ROUND_UP (len sdiv 512) 128"
    and run: "backup_do_cow e sn nb p job = Some (ret, side, job')"
  shows "accounted (DIV_ROUND_UP (len sdiv 512) 128) (len sdiv 512) job'
       \<and> common_offset job \<le> common_offset job'"
  using idle
proof (cases rule: backup_do_cow_cases[where e = e and sn = sn and nb = nb and p = p])
  case (length_failed len')
  then show ?thesis using run acc
    by (auto simp: accounted_def cow_left_fields cow_entered_fields)
next
  case (looped len' ret' sd job2)
  define tot where "tot = len sdiv 512"
  define K where "K = DIV_ROUND_UP tot 128"
  define s where "s = sn sdiv 128"
  define t where "t = DIV_ROUND_UP (sn + nb) 128"
  define job1 where "job1 = cow_entered job s t len'"
  have len': "len' = len" using steady looped(1,2) by (auto simp: steady_source_def)
  have tot0: "0 \<le> tot" using steady sectors_nonneg[of len] by (simp add: tot_def steady_source_def)
  have loop: "cow_loop e tot s t 0 job1 = (ret', sd, job2)"
    using looped(3) len' by (simp add: job1_def s_def t_def tot_def)
  have j': "job' = cow_left job job2" using looped(4) run by simp
  have b1: "bitmap job1 = bitmap job" and o1: "common_offset job1 = common_offset job"
    by (simp_all add: job1_def cow_entered_fields)
  define f where "f = cluster_sectors tot"
  define A where "A = {c \<in> {0 ..< K}. hbitmap_get (bitmap job) c}"
  define A' where "A' = {c \<in> {0 ..< K}. hbitmap_get (bitmap job2) c}"
  define C where "C = copied_clusters s t job1 job2"
  have C_in: "C \<subseteq> {0 ..< K}"
    using lo hi by (auto simp: C_def copied_clusters_def s_def t_def K_def tot_def)
  have split: "A' = A \<union> C"
  proof (intro set_eqI iffI)
    fix c assume "c \<in> A'"
    then have c: "c \<in> {0 ..< K}" "hbitmap_get (bitmap job2) c" by (auto simp: A'_def)
    show "c \<in> A \<union> C"
    proof (cases "hbitmap_get (bitmap job) c")
      case True then show ?thesis using c by (simp add: A_def)
    next
      case False
      with cow_loop_bits[OF loop, of c] c(2) b1 have "s \<le> c \<and> c < t" by auto
      then show ?thesis using False c(2) b1 by (simp add: C_def copied_clusters_def)
    qed
  next
    fix c assume "c \<in> A \<union> C"
    then show "c \<in> A'"
      using cow_loop_bits[OF loop, of c] b1 C_in
      by (auto simp: A_def A'_def C_def copied_clusters_def)
  qed
  have disj: "A \<inter> C = {}" using b1 by (auto simp: A_def C_def copied_clusters_def)
  have fin: "finite A" "finite C"
    using C_in by (auto simp: A_def intro: finite_subset[of _ "{0 ..< K}"])
  have sumA': "sum f A' = sum f A + sum f C"
    unfolding split using sum.union_disjoint[OF fin disj] by simp
  have pos: "0 \<le> sum f C"
  proof (rule sum_nonneg)
    fix c assume "c \<in> C"
    then have "c \<in> {0 ..< K}" using C_in by blast
    then show "0 \<le> f c" using cluster_sectors_pos[OF tot0, of c]
      by (simp add: f_def K_def less_imp_le)
  qed
  have o2: "common_offset job2 = common_offset job + 512 * sum f C"
    using cow_loop_accounting(2)[OF loop] o1 by (simp add: C_def f_def)
  have "common_offset job = 512 * sum f A"
    using acc by (simp add: accounted_def A_def f_def K_def tot_def)
  then have "common_offset job2 = 512 * sum f A'" using o2 sumA' by simp
  then show ?thesis using j' o2 pos
    by (simp add: accounted_def cow_left_fields A'_def f_def K_def tot_def)
qed

lemma write_range_within:
  assumes "0 \<le> s" and "0 \<le> n" and "s + n \<le> tot"
  shows "0 \<le> s sdiv 128 \<and> DIV_ROUND_UP (s + n) 128 \<le> DIV_ROUND_UP tot 128"
proof -
  have "0 \<le> tot" using assms by linarith
  then have "DIV_ROUND_UP tot 128 = (tot + 127) div 128"
    by (simp add: DIV_ROUND_UP_def signed_divide_int_def sgn_if)
  moreover have "DIV_ROUND_UP (s + n) 128 = (s + n + 127) div 128"
    using assms(1,2) by (simp add: DIV_ROUND_UP_def signed_divide_int_def sgn_if)
  moreover have "s sdiv 128 = s div 128"
    using assms(1) by (simp add: signed_divide_int_def sgn_if)
  moreover have "(s + n + 127) div 128 \<le> (tot + 127) div 128"
    using assms(3) by (simp add: zdiv_mono1)
  ultimately show ?thesis using assms(1) by (simp add: pos_imp_zdiv_nonneg_iff)
qed

lemma sweep_range_within:
  assumes "0 \<le> c" and "c < K"
  shows "0 \<le> (c * BACKUP_SECTORS_PER_CLUSTER) sdiv 128
       \<and> DIV_ROUND_UP (c * BACKUP_SECTORS_PER_CLUSTER + 1) 128 \<le> K"
proof -
  have "(c * 128) sdiv 128 = c" using assms(1) by (simp add: signed_divide_int_def sgn_if)
  moreover have "DIV_ROUND_UP (c * 128 + 1) 128 = c + 1"
    using assms(1) by (simp add: DIV_ROUND_UP_def signed_divide_int_def sgn_if)
  ultimately show ?thesis using assms by (simp add: sectors_per_cluster)
qed

lemma sweep_inv_emit: "sweep_inv len (emit ev job) = sweep_inv len job"
  by (simp add: sweep_inv_def idle_def accounted_def emit_def)

lemma common_offset_emit: "common_offset (emit ev job) = common_offset job"
  by (simp add: emit_def)

lemma sweep_inv_slice: "sweep_inv len (job\<lparr>sectors_read := n\<rparr>) = sweep_inv len job"
  by (simp add: sweep_inv_def idle_def accounted_def)

lemma backup_do_cow_inv:
  assumes "sweep_inv len job" and "steady_source e len"
    and "0 \<le> sn sdiv 128"
    and "DIV_ROUND_UP (sn + nb) 128 \<le> DIV_ROUND_UP (len sdiv 512) 128"
    and "backup_do_cow e sn nb p job = Some (ret, side, job')"
  shows "sweep_inv len job' \<and> common_offset job \<le> common_offset job'"
proof -
  have i: "idle job" using assms(1) by (simp add: sweep_inv_def)
  from backup_do_cow_idle[OF i, of e sn nb p] assms(5) have "idle job'" by auto
  moreover from backup_do_cow_accounted[OF i assms(2) _ assms(3,4,5)] assms(1)
  have "accounted (DIV_ROUND_UP (len sdiv 512) 128) (len sdiv 512) job'
       \<and> common_offset job \<le> common_offset job'"
    by (simp add: sweep_inv_def)
  ultimately show ?thesis by (simp add: sweep_inv_def)
qed

lemma notify_writes_inv:
  assumes "steady_source e len"
    and "\<forall>(s, n) \<in> set ws. 0 \<le> s \<and> 0 \<le> n \<and> s + n \<le> len sdiv 512"
    and "sweep_inv len job" and "notify_writes e ws job = Some job'"
  shows "sweep_inv len job' \<and> common_offset job \<le> common_offset job'"
  using assms(2,3,4)
proof (induction ws arbitrary: job)
  case Nil
  then show ?case by simp
next
  case (Cons w ws)
  obtain s n where w: "w = (s, n)" by (cases w) auto
  show ?case
  proof (cases "before_write_notifier job")
    case False
    then show ?thesis using Cons w by simp
  next
    case True
    have i: "idle job" using Cons.prems(2) by (simp add: sweep_inv_def)
    from backup_do_cow_idle[OF i, of e s n NULL]
    obtain ret side job1 where d: "backup_do_cow e s n NULL job = Some (ret, side, job1)"
      by blast
    have r: "0 \<le> s \<and> 0 \<le> n \<and> s + n \<le> len sdiv 512" using Cons.prems(1) w by simp
    from write_range_within[of s n "len sdiv 512"] r
    have rng: "0 \<le> s sdiv 128"
        "DIV_ROUND_UP (s + n) 128 \<le> DIV_ROUND_UP (len sdiv 512) 128" by simp_all
    from backup_do_cow_inv[OF Cons.prems(2) assms(1) rng d]
    have s1: "sweep_inv len job1" "common_offset job \<le> common_offset job1" by simp_all
    have rest: "notify_writes e ws (emit (BeforeWrite s n ret) job1) = Some job'"
      using Cons.prems(3) True w d by (simp add: backup_before_write_notify_def)
    from Cons.IH[OF _ _ rest] Cons.prems(1) s1(1)
    have "sweep_inv len job'
        \<and> common_offset (emit (BeforeWrite s n ret) job1) \<le> common_offset job'"
      by (simp add: sweep_inv_emit)
    then show ?thesis using s1(2) by (simp add: emit_def)
  qed
qed

lemma sweep_yield_inv:
  assumes "steady_source e len" and "writes_within e (len sdiv 512)"
    and "sweep_inv len job" and "sweep_yield e job = Some job'"
  shows "sweep_inv len job' \<and> common_offset job \<le> common_offset job'"
proof -
  have w: "\<forall>(s, n) \<in> set (tracked_writes e t). 0 \<le> s \<and> 0 \<le> n \<and> s + n \<le> len sdiv 512" for t
    using assms(2) by (simp add: writes_within_def)
  show ?thesis
  proof (cases "common_speed job \<noteq> 0")
    case True
    define d where "d = ratelimit_calculate_delay e (now job) (sectors_read job)"
    define job1 where "job1 = emit (SleepNs d)
        ((emit (CalculateDelay (sectors_read job) d) job)\<lparr>sectors_read := 0\<rparr>)"
    have i1: "sweep_inv len job1"
      using assms(3) by (simp add: job1_def sweep_inv_emit sweep_inv_slice)
    have o1: "common_offset job1 = common_offset job" by (simp add: job1_def emit_def)
    have "notify_writes e (tracked_writes e (Suc (now job))) job1 = Some job'"
      using assms(4) True
      by (simp add: sweep_yield_def block_job_sleep_ns_def Let_def d_def job1_def emit_def)
    from notify_writes_inv[OF assms(1) w i1 this] o1 show ?thesis by simp
  next
    case False
    define job1 where "job1 = emit (SleepNs 0) job"
    have i1: "sweep_inv len job1" using assms(3) by (simp add: job1_def sweep_inv_emit)
    have o1: "common_offset job1 = common_offset job" by (simp add: job1_def emit_def)
    have "notify_writes e (tracked_writes e (now job)) job1 = Some job'"
      using assms(4) False
      by (simp add: sweep_yield_def block_job_sleep_ns_def Let_def job1_def emit_def)
    from notify_writes_inv[OF assms(1) w i1 this] o1 show ?thesis by simp
  qed
qed

lemma backup_run_body_inv:
  assumes "steady_source e len" and "writes_within e (len sdiv 512)"
    and "sweep_inv len job" and "0 \<le> start"
    and "start < DIV_ROUND_UP (len sdiv 512) 128"
    and "backup_run_body e start ret job = Some (ctl, start', ret', job')"
  shows "sweep_inv len job' \<and> common_offset job \<le> common_offset job' \<and> 0 \<le> start' + 1"
proof (cases "block_job_is_cancelled e (now job)")
  case True
  then have "job' = emit (IsCancelled True) job \<and> start' = start"
    using assms(6) by (auto simp: backup_run_body_def job_is_cancelled_def Let_def)
  then show ?thesis using assms(3,4) by (simp add: sweep_inv_emit common_offset_emit)
next
  case c1: False
  define job1 where "job1 = emit (IsCancelled False) job"
  have i1: "sweep_inv len job1" using assms(3) by (simp add: job1_def sweep_inv_emit)
  have o1: "common_offset job1 = common_offset job" by (simp add: job1_def emit_def)
  from assms(6) c1 obtain job2 where y: "sweep_yield e job1 = Some job2"
    by (auto simp: backup_run_body_def job_is_cancelled_def Let_def job1_def split: option.splits)
  from sweep_yield_inv[OF assms(1,2) i1 y] o1
  have i2: "sweep_inv len job2" and o2: "common_offset job \<le> common_offset job2" by simp_all
  show ?thesis
  proof (cases "block_job_is_cancelled e (now job2)")
    case True
    then have "job' = emit (IsCancelled True) job2 \<and> start' = start"
      using assms(6) c1 y
      by (auto simp: backup_run_body_def job_is_cancelled_def Let_def job1_def)
    then show ?thesis using assms(4) i2 o2 by (simp add: sweep_inv_emit common_offset_emit)
  next
    case c2: False
    define job3 where "job3 = emit (IsCancelled False) job2"
    have i3: "sweep_inv len job3" using i2 by (simp add: job3_def sweep_inv_emit)
    have o3: "common_offset job3 = common_offset job2" by (simp add: job3_def emit_def)
    from assms(6) c1 c2 y obtain r sd job4 where
      d: "backup_do_cow e (start * BACKUP_SECTORS_PER_CLUSTER) 1 OUT job3 = Some (r, sd, job4)"
      by (auto simp: backup_run_body_def job_is_cancelled_def Let_def job1_def job3_def
          split: option.splits)
    from sweep_range_within[OF assms(4,5)]
    have rng: "0 \<le> (start * BACKUP_SECTORS_PER_CLUSTER) sdiv 128"
      "DIV_ROUND_UP (start * BACKUP_SECTORS_PER_CLUSTER + 1) 128
         \<le> DIV_ROUND_UP (len sdiv 512) 128" by simp_all
    from backup_do_cow_inv[OF i3 assms(1) rng d] o3 o2
    have i4: "sweep_inv len job4" and o4: "common_offset job \<le> common_offset job4"
      by simp_all
    have "job' = job4 \<or> (\<exists>ev. job' = emit ev job4)" and "start' = start \<or> start' = start - 1"
      using assms(6) c1 c2 y d
      by (auto simp: backup_run_body_def job_is_cancelled_def Let_def job1_def job3_def
            backup_error_action_def split: option.splits if_splits)
    then show ?thesis using i4 o4 assms(4) by (auto simp: sweep_inv_emit common_offset_emit)
  qed
qed

lemma sweep_entered_inv:
  assumes "common_offset job = 0"
  shows "sweep_inv len (sweep_entered e job) \<and> common_offset (sweep_entered e job) = 0"
  using assms
  by (simp add: sweep_inv_def idle_def accounted_def sweep_entered_def emit_def
      qemu_co_rwlock_init_def hbitmap_alloc_def hbitmap_get_def)

text \<open>
  In the engine of \<^verbatim>\<open>src/block/backup.c\<close>, on a source whose length does not change and
  with guest writes within the source, every state of the sweep has its progress counter
  between that of the start and the length, and every iteration leaves it where it was
  or moves it up (\<open>backup_run_body_inv\<close>).
\<close>

lemma engine_offset_within_len:
  assumes "steady_source e len" and "writes_within e (len sdiv 512)"
    and "sweep_inv len job0"
    and "sweep_state e (DIV_ROUND_UP (len sdiv 512) 128) job0 st"
  shows "sweep_inv len (snd (snd st)) \<and> 0 \<le> fst st
       \<and> common_offset job0 \<le> common_offset (snd (snd st))
       \<and> 0 \<le> common_offset (snd (snd st)) \<and> common_offset (snd (snd st)) \<le> len"
proof -
  have len0: "0 \<le> len" using assms(1) by (simp add: steady_source_def)
  have bound: "0 \<le> common_offset job \<and> common_offset job \<le> len" if "sweep_inv len job" for job
  proof -
    from accounted_bounds[OF sectors_nonneg[OF len0], of job] that
    have "0 \<le> common_offset job \<and> common_offset job \<le> 512 * (len sdiv 512)"
      by (simp add: sweep_inv_def)
    moreover have "512 * (len div 512) \<le> len"
      using mult_div_mod_eq[of 512 len] pos_mod_sign[of 512 len] by linarith
    then have "512 * (len sdiv 512) \<le> len"
      using len0 by (simp add: signed_divide_int_def sgn_if)
    ultimately show ?thesis by linarith
  qed
  have "sweep_inv len (snd (snd st)) \<and> 0 \<le> fst st
       \<and> common_offset job0 \<le> common_offset (snd (snd st))"
    using assms(4)
  proof (induction rule: sweep_state.induct)
    case head
    then show ?case using assms(3) by simp
  next
    case (iteration start ret job ctl start' ret' job')
    from backup_run_body_inv[OF assms(1,2) _ _ iteration(2,3)] iteration(4)
    show ?case by auto
  qed
  then show ?thesis using bound by blast
qed

lemma engine_offset_within_len_started:
  assumes "steady_source e len" and "writes_within e (len sdiv 512)"
    and "bdrv_getlength e (now job) = len" and "common_offset job = 0"
    and "sweep_state e (sweep_end e job) (sweep_entered e job) (start, ret, job')"
  shows "0 \<le> common_offset job' \<and> common_offset job' \<le> len"
proof -
  have K: "sweep_end e job = DIV_ROUND_UP (len sdiv 512) 128"
    using assms(3) by (simp add: sweep_end_def BDRV_SECTOR_SIZE_def sectors_per_cluster)
  from engine_offset_within_len[OF assms(1,2) sweep_entered_inv[OF assms(4), THEN conjunct1],
      where st = "(start, ret, job')"] assms(5) K
  show ?thesis by simp
qed

section \<open>The claims\<close>

subsection \<open>C1\<close>




subsection \<open>C2\<close>

text \<open>
  C2 at a failing input of the variant of \<^verbatim>\<open>src/backup.c\<close>: on the source of one sector
  that reads as non-zero bytes, \<^verbatim>\<open>backup_do_cow\<close> reads 128 sectors from sector 0 and
  writes 128 sectors to the target, where the claim gives \<open>n = min(128, 1 - 0) = 1\<close>:
  the sectors 1 to 127 lie past the end of the device. The engine of
  \<^verbatim>\<open>src/block/backup.c\<close> computes \<open>n\<close> as the claim says (\<open>cow_loop_ranges\<close>) and stays
  within the device (\<open>io_within_device\<close>, \<open>short_final_cluster\<close>).
\<close>

theorem variant_copies_whole_cluster_past_end:
  "backup_do_cow_var env_ones 0 1 job_var_512
     = Some (0, job_var_512\<lparr>sectors_read_var := 128, bitmap_var := [1], now_var := 2,
               trace_var := [Readv 0 128 0, Writev 0 128 (\<lambda>i. 1) 0]\<rparr>)"
  by (simp add: eval_var eval_envs)

subsection \<open>C3\<close>

text \<open>
  C3, for the engine of \<^verbatim>\<open>src/block/backup.c\<close>. An invocation of \<^verbatim>\<open>backup_do_cow\<close> on an
  idle job returns, and its calls are the length query followed by calls that follow zero
  detection (\<open>zero_detect_ok\<close>): every read that succeeds is followed by exactly one
  target operation on the sectors of the read, a write-zeroes when the first \<open>n * 512\<close>
  bytes of the buffer are zero and a write of the buffer otherwise.
\<close>

theorem zero_detection_selects_target_op:
  assumes "idle job"
  shows "\<exists>ret side job' evs. backup_do_cow e sector_num nb_sectors p job = Some (ret, side, job')
      \<and> new_events job job' = GetLength (bdrv_getlength e (now job)) # evs
      \<and> zero_detect_ok e (now job + 1) evs"
  using assms
proof (cases rule: backup_do_cow_cases[where e = e and sn = sector_num and nb = nb_sectors and p = p])
  case (length_failed len)
  then show ?thesis
    by (simp add: cow_left_fields cow_entered_fields new_events_def)
next
  case (looped len ret sd job2)
  note ev = backup_do_cow_looped_events[OF looped(3)]
  show ?thesis
    using looped(1,4) ev(1) cow_loop_zero_detect[OF looped(3)]
    by (simp add: cow_entered_fields)
qed

text \<open>
  The hypothesis of C3 holds of the job on the one-sector source; its cluster is written
  with a write of the buffer when the source reads as ones, and with a write-zeroes when
  it reads as zeros.
\<close>

theorem zero_detection_selects_target_op_witness:
  "idle job_512
   \<and> (\<exists>ret side job' evs. backup_do_cow env_ones 0 1 OUT job_512 = Some (ret, side, job')
        \<and> new_events job_512 job' = GetLength (bdrv_getlength env_ones (now job_512)) # evs
        \<and> zero_detect_ok env_ones (now job_512 + 1) evs)
   \<and> map_option (\<lambda>(ret, side, job'). trace job') (backup_do_cow env_ones 0 1 OUT job_512)
       = Some [GetLength 512, Readv 0 1 0, Writev 0 1 (\<lambda>i. 1) 0]
   \<and> map_option (\<lambda>(ret, side, job'). trace job') (backup_do_cow env_zero 0 1 OUT job_512)
       = Some [GetLength 512, Readv 0 1 0, WriteZeroes 0 1 0]"
proof -
  note h = idle_job_512
  have inst: "\<exists>ret side job' evs. backup_do_cow env_ones 0 1 OUT job_512 = Some (ret, side, job')
        \<and> new_events job_512 job' = GetLength (bdrv_getlength env_ones (now job_512)) # evs
        \<and> zero_detect_ok env_ones (now job_512 + 1) evs"
    using zero_detection_selects_target_op[OF h, of env_ones 0 1 OUT] .
  have run: "map_option (\<lambda>(ret, side, job'). trace job') (backup_do_cow env_ones 0 1 OUT job_512)
       = Some [GetLength 512, Readv 0 1 0, Writev 0 1 (\<lambda>i. 1) 0]"
    "map_option (\<lambda>(ret, side, job'). trace job') (backup_do_cow env_zero 0 1 OUT job_512)
       = Some [GetLength 512, Readv 0 1 0, WriteZeroes 0 1 0]"
    by (simp_all add: eval_main eval_envs)
  show ?thesis by (intro conjI h inst run)
qed

text \<open>
  C3 fails on the variant of \<^verbatim>\<open>src/backup.c\<close>, which has no write-zeroes and writes
  nothing for a cluster that reads as zeros (\<^verbatim>\<open>if (!zero)\<close>): on a source of one cluster
  of zeros the only call of the invocation is the read.
\<close>

theorem variant_skips_zero_cluster_counterexample:
  "backup_do_cow_var env_zero 0 128 job_var_64k
     = Some (0, job_var_64k\<lparr>sectors_read_var := 128, bitmap_var := [1], now_var := 1,
                            trace_var := [Readv 0 128 0]\<rparr>)"
  by (simp add: eval_var eval_envs)

subsection \<open>C4\<close>



subsection \<open>C5\<close>

text \<open>
  C5, as the code has it. When the first or the second cancellation check of an
  iteration observes the cancellation, the loop of \<^verbatim>\<open>backup_run\<close> returns at once, with
  the state of the check (no \<^verbatim>\<open>backup_do_cow\<close> of the sweep follows) and with \<^verbatim>\<open>ret\<close>
  unchanged; \<^verbatim>\<open>backup_run\<close> hands the \<^verbatim>\<open>ret\<close> its loop returns to
  \<^verbatim>\<open>block_job_completed\<close>. The loop of the variant returns at once with \<open>-1\<close>.
\<close>

theorem cancellation_ends_sweep:
  "(start < end' \<and> block_job_is_cancelled e (now job)
      \<longrightarrow> backup_run_loop e end' start ret job = Some (ret, emit (IsCancelled True) job))
   \<and> (start < end' \<and> \<not> block_job_is_cancelled e (now job)
       \<and> sweep_yield e (emit (IsCancelled False) job) = Some job2
       \<and> block_job_is_cancelled e (now job2)
      \<longrightarrow> backup_run_loop e end' start ret job = Some (ret, emit (IsCancelled True) job2))
   \<and> (backup_run_loop e (sweep_end e job0) 0 0 (sweep_entered e job0) = Some (ret, job3)
       \<and> \<not> writer (flush_rwlock job3) \<and> reader (flush_rwlock job3) = 0
      \<longrightarrow> (\<exists>final. backup_run e job0 = Some (ret, final)
                    \<and> trace final = trace job3 @ [Completed ret]))
   \<and> (start < end' \<and> block_job_is_cancelled e (now_var jobv)
      \<longrightarrow> backup_run_loop_var e end' start ret jobv
          = Some (- 1, emit_var (IsCancelled True) jobv))
   \<and> (start < end' \<and> \<not> block_job_is_cancelled e (now_var jobv)
       \<and> sweep_yield_var e (emit_var (IsCancelled False) jobv) = Some jobv2
       \<and> block_job_is_cancelled e (now_var jobv2)
      \<longrightarrow> backup_run_loop_var e end' start ret jobv
          = Some (- 1, emit_var (IsCancelled True) jobv2))"
proof (intro conjI impI)
  assume "start < end' \<and> block_job_is_cancelled e (now job)"
  then show "backup_run_loop e end' start ret job = Some (ret, emit (IsCancelled True) job)"
    by (intro backup_run_loop_break[where start' = start])
       (simp_all add: backup_run_body_def job_is_cancelled_def Let_def)
next
  assume "start < end' \<and> \<not> block_job_is_cancelled e (now job)
       \<and> sweep_yield e (emit (IsCancelled False) job) = Some job2
       \<and> block_job_is_cancelled e (now job2)"
  then show "backup_run_loop e end' start ret job = Some (ret, emit (IsCancelled True) job2)"
    by (intro backup_run_loop_break[where start' = start])
       (simp_all add: backup_run_body_def job_is_cancelled_def Let_def)
next
  assume "backup_run_loop e (sweep_end e job0) 0 0 (sweep_entered e job0) = Some (ret, job3)
       \<and> \<not> writer (flush_rwlock job3) \<and> reader (flush_rwlock job3) = 0"
  then show "\<exists>final. backup_run e job0 = Some (ret, final)
                    \<and> trace final = trace job3 @ [Completed ret]"
    by (simp add: backup_run_unfold qemu_co_rwlock_wrlock_def emit_def)
next
  assume "start < end' \<and> block_job_is_cancelled e (now_var jobv)"
  then show "backup_run_loop_var e end' start ret jobv
          = Some (- 1, emit_var (IsCancelled True) jobv)"
    by (intro backup_run_loop_var_break[where start' = start])
       (simp_all add: backup_run_body_var_def job_is_cancelled_var_def Let_def)
next
  assume "start < end' \<and> \<not> block_job_is_cancelled e (now_var jobv)
       \<and> sweep_yield_var e (emit_var (IsCancelled False) jobv) = Some jobv2
       \<and> block_job_is_cancelled e (now_var jobv2)"
  then show "backup_run_loop_var e end' start ret jobv
          = Some (- 1, emit_var (IsCancelled True) jobv2)"
    by (intro backup_run_loop_var_break[where start' = start])
       (simp_all add: backup_run_body_var_def job_is_cancelled_var_def Let_def)
qed

text \<open>
  The hypotheses of C5 hold on the one-sector source: cancelled before the first check,
  cancelled during the sleep, and for the whole run of a job cancelled at the start.
\<close>

theorem cancellation_ends_sweep_witness:
  "((0::int) < 1 \<and> block_job_is_cancelled env_cancelled (now job_512))
   \<and> backup_run_loop env_cancelled 1 0 0 job_512 = Some (0, emit (IsCancelled True) job_512)
   \<and> ((0::int) < 1 \<and> \<not> block_job_is_cancelled env_cancelled_asleep (now job_512)
       \<and> sweep_yield env_cancelled_asleep (emit (IsCancelled False) job_512)
           = Some (job_512\<lparr>now := 2, trace := [IsCancelled False, SleepNs 0]\<rparr>)
       \<and> block_job_is_cancelled env_cancelled_asleep
            (now (job_512\<lparr>now := 2, trace := [IsCancelled False, SleepNs 0]\<rparr>)))
   \<and> backup_run_loop env_cancelled_asleep 1 0 0 job_512
       = Some (0, emit (IsCancelled True)
                    (job_512\<lparr>now := 2, trace := [IsCancelled False, SleepNs 0]\<rparr>))
   \<and> (backup_run_loop env_cancelled (sweep_end env_cancelled job_512) 0 0
          (sweep_entered env_cancelled job_512)
         = Some (0, emit (IsCancelled True) (sweep_entered env_cancelled job_512))
       \<and> \<not> writer (flush_rwlock (emit (IsCancelled True) (sweep_entered env_cancelled job_512)))
       \<and> reader (flush_rwlock (emit (IsCancelled True) (sweep_entered env_cancelled job_512))) = 0)
   \<and> (\<exists>final. backup_run env_cancelled job_512 = Some (0, final)
          \<and> trace final
              = trace (emit (IsCancelled True) (sweep_entered env_cancelled job_512)) @ [Completed 0])
   \<and> ((0::int) < 1 \<and> block_job_is_cancelled env_cancelled (now_var job_var_512))
   \<and> backup_run_loop_var env_cancelled 1 0 0 job_var_512
       = Some (- 1, emit_var (IsCancelled True) job_var_512)
   \<and> ((0::int) < 1 \<and> \<not> block_job_is_cancelled env_cancelled_asleep (now_var job_var_512)
       \<and> sweep_yield_var env_cancelled_asleep (emit_var (IsCancelled False) job_var_512)
           = Some (job_var_512\<lparr>now_var := 2, trace_var := [IsCancelled False, SleepNs 0]\<rparr>)
       \<and> block_job_is_cancelled env_cancelled_asleep
            (now_var (job_var_512\<lparr>now_var := 2, trace_var := [IsCancelled False, SleepNs 0]\<rparr>)))
   \<and> backup_run_loop_var env_cancelled_asleep 1 0 0 job_var_512
       = Some (- 1, emit_var (IsCancelled True)
                      (job_var_512\<lparr>now_var := 2, trace_var := [IsCancelled False, SleepNs 0]\<rparr>))"
proof -
  have a: "(0::int) < 1 \<and> block_job_is_cancelled env_cancelled (now job_512)"
    by (simp add: eval_envs)
  have b: "(0::int) < 1 \<and> \<not> block_job_is_cancelled env_cancelled_asleep (now job_512)
       \<and> sweep_yield env_cancelled_asleep (emit (IsCancelled False) job_512)
           = Some (job_512\<lparr>now := 2, trace := [IsCancelled False, SleepNs 0]\<rparr>)
       \<and> block_job_is_cancelled env_cancelled_asleep
            (now (job_512\<lparr>now := 2, trace := [IsCancelled False, SleepNs 0]\<rparr>))"
    by (simp add: eval_main eval_envs)
  have c: "backup_run_loop env_cancelled (sweep_end env_cancelled job_512) 0 0
          (sweep_entered env_cancelled job_512)
         = Some (0, emit (IsCancelled True) (sweep_entered env_cancelled job_512))
       \<and> \<not> writer (flush_rwlock (emit (IsCancelled True) (sweep_entered env_cancelled job_512)))
       \<and> reader (flush_rwlock (emit (IsCancelled True) (sweep_entered env_cancelled job_512))) = 0"
    by (simp add: eval_main eval_envs sweep_end_def sweep_entered_def)
  have d: "(0::int) < 1 \<and> block_job_is_cancelled env_cancelled (now_var job_var_512)"
    by (simp add: eval_envs)
  have e: "(0::int) < 1 \<and> \<not> block_job_is_cancelled env_cancelled_asleep (now_var job_var_512)
       \<and> sweep_yield_var env_cancelled_asleep (emit_var (IsCancelled False) job_var_512)
           = Some (job_var_512\<lparr>now_var := 2, trace_var := [IsCancelled False, SleepNs 0]\<rparr>)
       \<and> block_job_is_cancelled env_cancelled_asleep
            (now_var (job_var_512\<lparr>now_var := 2, trace_var := [IsCancelled False, SleepNs 0]\<rparr>))"
    by (simp add: eval_var eval_envs)
  note t1 = cancellation_ends_sweep[of 0 1 env_cancelled job_512 0 job_512 job_512 job_512
      job_var_512 job_var_512, THEN conjunct1, rule_format, OF a]
  note t2 = cancellation_ends_sweep[of 0 1 env_cancelled_asleep job_512 0
      "job_512\<lparr>now := 2, trace := [IsCancelled False, SleepNs 0]\<rparr>" job_512 job_512
      job_var_512 job_var_512, THEN conjunct2, THEN conjunct1, rule_format, OF b]
  note t3 = cancellation_ends_sweep[of 0 1 env_cancelled job_512 0 job_512 job_512
      "emit (IsCancelled True) (sweep_entered env_cancelled job_512)"
      job_var_512 job_var_512, THEN conjunct2, THEN conjunct2, THEN conjunct1, rule_format, OF c]
  note t4 = cancellation_ends_sweep[of 0 1 env_cancelled job_512 0 job_512 job_512 job_512
      job_var_512 job_var_512, THEN conjunct2, THEN conjunct2, THEN conjunct2, THEN conjunct1,
      rule_format, OF d]
  note t5 = cancellation_ends_sweep[of 0 1 env_cancelled_asleep job_512 0 job_512 job_512 job_512
      job_var_512 "job_var_512\<lparr>now_var := 2, trace_var := [IsCancelled False, SleepNs 0]\<rparr>",
      THEN conjunct2, THEN conjunct2, THEN conjunct2, THEN conjunct2, rule_format, OF e]
  show ?thesis by (intro conjI a[THEN conjunct1] a[THEN conjunct2] t1 b t2 c t3 d t4 e t5) 
qed

text \<open>
  C5 fails where it promises a result of its own for a cancelled job. The engine of
  \<^verbatim>\<open>src/block/backup.c\<close> completes a job cancelled at the start with the code 0, the
  code of the job that copied its source; and a job cancelled while the sweep is about
  to retry a cluster whose read failed completes with the error of that read.
\<close>

theorem cancelled_completion_code_counterexample:
  "calls_made (backup_start env_cancelled True 0 BLOCKDEV_ON_ERROR_REPORT BLOCKDEV_ON_ERROR_REPORT)
     = [GetLength 512, GetLength 512, IsCancelled True, Completed 0]
   \<and> calls_made (backup_start env_zero True 0 BLOCKDEV_ON_ERROR_REPORT BLOCKDEV_ON_ERROR_REPORT)
     = [GetLength 512, GetLength 512, IsCancelled False, SleepNs 0, IsCancelled False,
        GetLength 512, Readv 0 1 0, WriteZeroes 0 1 0, Completed 0]
   \<and> completion_code
        (backup_start env_cancelled True 0 BLOCKDEV_ON_ERROR_REPORT BLOCKDEV_ON_ERROR_REPORT)
     = completion_code
        (backup_start env_zero True 0 BLOCKDEV_ON_ERROR_REPORT BLOCKDEV_ON_ERROR_REPORT)
   \<and> calls_made
        (backup_start env_retry_cancelled True 0 BLOCKDEV_ON_ERROR_IGNORE BLOCKDEV_ON_ERROR_REPORT)
     = [GetLength 512, GetLength 512, IsCancelled False, SleepNs 0, IsCancelled False,
        GetLength 512, Readv 0 1 (- 5),
        ErrorAction Source BLOCKDEV_ON_ERROR_IGNORE True 5 BDRV_ACTION_IGNORE,
        IsCancelled True, Completed (- 5)]"
  by (simp add: eval_main eval_envs completion_code_def calls_made_def)

subsection \<open>C6\<close>

text \<open>
  C6, for the engine of \<^verbatim>\<open>src/block/backup.c\<close>. When the \<^verbatim>\<open>backup_do_cow\<close> of an
  iteration of the sweep returns an error, it has stored the side that failed; the
  sweep asks \<^verbatim>\<open>block_job_error_action\<close> with the device and the policy of that side;
  when the action is to report, the loop returns that error; otherwise the loop goes on
  with the same cluster.
\<close>

theorem sweep_consults_error_policy:
  assumes "idle job" and "start < end'"
    and "\<not> block_job_is_cancelled e (now job)"
    and "sweep_yield e (emit (IsCancelled False) job) = Some job2"
    and "\<not> block_job_is_cancelled e (now job2)"
    and "backup_do_cow e (start * BACKUP_SECTORS_PER_CLUSTER) 1 OUT (emit (IsCancelled False) job2)
           = Some (r, side, job4)"
    and "r < 0"
  shows "\<exists>read. side = Some read
      \<and> backup_error_action e read (- r) job4
          = (block_job_error_action e (now job4) (if read then Source else Target)
               (if read then on_source_error job4 else on_target_error job4) read (- r),
             emit (ErrorAction (if read then Source else Target)
                     (if read then on_source_error job4 else on_target_error job4) read (- r)
                     (block_job_error_action e (now job4) (if read then Source else Target)
                        (if read then on_source_error job4 else on_target_error job4) read (- r)))
               job4)
      \<and> backup_run_loop e end' start ret job
          = (if fst (backup_error_action e read (- r) job4) = BDRV_ACTION_REPORT
             then Some (r, snd (backup_error_action e read (- r) job4))
             else backup_run_loop e end' start r (snd (backup_error_action e read (- r) job4)))"
proof -
  have i1: "idle (emit (IsCancelled False) job)" using assms(1) by (simp add: idle_def emit_def)
  from sweep_yield_idle[OF i1, of e] assms(4) have "idle job2" by auto
  then have i3: "idle (emit (IsCancelled False) job2)" by (simp add: idle_def emit_def)
  from backup_do_cow_idle[OF i3, of e "start * BACKUP_SECTORS_PER_CLUSTER" 1 OUT] assms(6,7)
  obtain read where side: "side = Some read" by auto
  obtain action job5 where ea: "backup_error_action e read (- r) job4 = (action, job5)"
    by (cases "backup_error_action e read (- r) job4") auto
  have body: "backup_run_body e start ret job
        = Some (if action = BDRV_ACTION_REPORT then (Break, start, r, job5)
                else (Continue, start - 1, r, job5))"
    using assms(3-7) side ea
    by (simp add: backup_run_body_def job_is_cancelled_def Let_def)
  have loop: "backup_run_loop e end' start ret job
          = (if action = BDRV_ACTION_REPORT then Some (r, job5)
             else backup_run_loop e end' start r job5)"
  proof (cases "action = BDRV_ACTION_REPORT")
    case True
    then show ?thesis using backup_run_loop_break[OF assms(2), of e ret job start r job5] body
      by simp
  next
    case False
    then show ?thesis
      using backup_run_loop_continue[OF assms(2), of e ret job "start - 1" r job5] body by simp
  qed
  have shape: "backup_error_action e read (- r) job4
          = (block_job_error_action e (now job4) (if read then Source else Target)
               (if read then on_source_error job4 else on_target_error job4) read (- r),
             emit (ErrorAction (if read then Source else Target)
                     (if read then on_source_error job4 else on_target_error job4) read (- r)
                     (block_job_error_action e (now job4) (if read then Source else Target)
                        (if read then on_source_error job4 else on_target_error job4) read (- r)))
               job4)"
    by (simp add: backup_error_action_def Let_def)
  have loop': "backup_run_loop e end' start ret job
          = (if fst (backup_error_action e read (- r) job4) = BDRV_ACTION_REPORT
             then Some (r, snd (backup_error_action e read (- r) job4))
             else backup_run_loop e end' start r (snd (backup_error_action e read (- r) job4)))"
    using loop ea by simp
  show ?thesis by (intro exI[of _ read] conjI side shape loop')
qed

text \<open>
  The hypotheses of C6 hold on the one-sector source whose read fails.
\<close>

theorem sweep_consults_error_policy_witness:
  "idle job_512 \<and> (0::int) < 1
   \<and> \<not> block_job_is_cancelled env_read_fails (now job_512)
   \<and> sweep_yield env_read_fails (emit (IsCancelled False) job_512)
       = Some (job_512\<lparr>now := 2, trace := [IsCancelled False, SleepNs 0]\<rparr>)
   \<and> \<not> block_job_is_cancelled env_read_fails
          (now (job_512\<lparr>now := 2, trace := [IsCancelled False, SleepNs 0]\<rparr>))
   \<and> backup_do_cow env_read_fails (0 * BACKUP_SECTORS_PER_CLUSTER) 1 OUT
        (emit (IsCancelled False) (job_512\<lparr>now := 2, trace := [IsCancelled False, SleepNs 0]\<rparr>))
       = Some (- 5, Some True,
               job_512\<lparr>now := 5,
                        trace := [IsCancelled False, SleepNs 0, IsCancelled False,
                                  GetLength 512, Readv 0 1 (- 5)]\<rparr>)
   \<and> (- 5 :: int) < 0
   \<and> (\<exists>read. Some True = Some read
      \<and> backup_error_action env_read_fails read (- (- 5)) (job_512\<lparr>now := 5,
                        trace := [IsCancelled False, SleepNs 0, IsCancelled False,
                                  GetLength 512, Readv 0 1 (- 5)]\<rparr>)
          = (block_job_error_action env_read_fails (now (job_512\<lparr>now := 5,
                        trace := [IsCancelled False, SleepNs 0, IsCancelled False,
                                  GetLength 512, Readv 0 1 (- 5)]\<rparr>)) (if read then Source else Target)
               (if read then on_source_error (job_512\<lparr>now := 5,
                        trace := [IsCancelled False, SleepNs 0, IsCancelled False,
                                  GetLength 512, Readv 0 1 (- 5)]\<rparr>) else on_target_error (job_512\<lparr>now := 5,
                        trace := [IsCancelled False, SleepNs 0, IsCancelled False,
                                  GetLength 512, Readv 0 1 (- 5)]\<rparr>)) read (- (- 5)),
             emit (ErrorAction (if read then Source else Target)
                     (if read then on_source_error (job_512\<lparr>now := 5,
                        trace := [IsCancelled False, SleepNs 0, IsCancelled False,
                                  GetLength 512, Readv 0 1 (- 5)]\<rparr>) else on_target_error (job_512\<lparr>now := 5,
                        trace := [IsCancelled False, SleepNs 0, IsCancelled False,
                                  GetLength 512, Readv 0 1 (- 5)]\<rparr>)) read (- (- 5))
                     (block_job_error_action env_read_fails (now (job_512\<lparr>now := 5,
                        trace := [IsCancelled False, SleepNs 0, IsCancelled False,
                                  GetLength 512, Readv 0 1 (- 5)]\<rparr>))
                        (if read then Source else Target)
                        (if read then on_source_error (job_512\<lparr>now := 5,
                        trace := [IsCancelled False, SleepNs 0, IsCancelled False,
                                  GetLength 512, Readv 0 1 (- 5)]\<rparr>) else on_target_error (job_512\<lparr>now := 5,
                        trace := [IsCancelled False, SleepNs 0, IsCancelled False,
                                  GetLength 512, Readv 0 1 (- 5)]\<rparr>)) read (- (- 5))))
               (job_512\<lparr>now := 5,
                        trace := [IsCancelled False, SleepNs 0, IsCancelled False,
                                  GetLength 512, Readv 0 1 (- 5)]\<rparr>))
      \<and> backup_run_loop env_read_fails 1 0 0 job_512
          = (if fst (backup_error_action env_read_fails read (- (- 5)) (job_512\<lparr>now := 5,
                        trace := [IsCancelled False, SleepNs 0, IsCancelled False,
                                  GetLength 512, Readv 0 1 (- 5)]\<rparr>)) = BDRV_ACTION_REPORT
             then Some (- 5, snd (backup_error_action env_read_fails read (- (- 5)) (job_512\<lparr>now := 5,
                        trace := [IsCancelled False, SleepNs 0, IsCancelled False,
                                  GetLength 512, Readv 0 1 (- 5)]\<rparr>)))
             else backup_run_loop env_read_fails 1 0 (- 5)
                    (snd (backup_error_action env_read_fails read (- (- 5)) (job_512\<lparr>now := 5,
                        trace := [IsCancelled False, SleepNs 0, IsCancelled False,
                                  GetLength 512, Readv 0 1 (- 5)]\<rparr>)))))
   \<and> backup_run_loop env_read_fails 1 0 0 job_512
       = Some (- 5, job_512\<lparr>now := 6,
                 trace := [IsCancelled False, SleepNs 0, IsCancelled False, GetLength 512,
                           Readv 0 1 (- 5),
                           ErrorAction Source BLOCKDEV_ON_ERROR_REPORT True 5 BDRV_ACTION_REPORT]\<rparr>)
   \<and> map_option (\<lambda>(ret, job'). (ret, trace job'))
        (backup_run_loop env_read_fails_once 1 0 0 job_512_ignore)
       = Some (0, [IsCancelled False, SleepNs 0, IsCancelled False, GetLength 512,
                   Readv 0 1 (- 5),
                   ErrorAction Source BLOCKDEV_ON_ERROR_IGNORE True 5 BDRV_ACTION_IGNORE,
                   IsCancelled False, SleepNs 0, IsCancelled False, GetLength 512,
                   Readv 0 1 0, WriteZeroes 0 1 0])"
proof -
  note h1 = idle_job_512
  have h2: "(0::int) < 1" by simp
  have h3: "\<not> block_job_is_cancelled env_read_fails (now job_512)"
    by (simp add: eval_envs)
  have h4: "sweep_yield env_read_fails (emit (IsCancelled False) job_512)
       = Some (job_512\<lparr>now := 2, trace := [IsCancelled False, SleepNs 0]\<rparr>)"
    by (simp add: eval_main eval_envs)
  have h5: "\<not> block_job_is_cancelled env_read_fails
          (now (job_512\<lparr>now := 2, trace := [IsCancelled False, SleepNs 0]\<rparr>))"
    by (simp add: eval_envs)
  have h6: "backup_do_cow env_read_fails (0 * BACKUP_SECTORS_PER_CLUSTER) 1 OUT
        (emit (IsCancelled False) (job_512\<lparr>now := 2, trace := [IsCancelled False, SleepNs 0]\<rparr>))
       = Some (- 5, Some True,
               job_512\<lparr>now := 5,
                        trace := [IsCancelled False, SleepNs 0, IsCancelled False,
                                  GetLength 512, Readv 0 1 (- 5)]\<rparr>)"
    by (simp add: eval_main eval_envs)
  have h7: "(- 5 :: int) < 0" by simp
  note inst = sweep_consults_error_policy[OF h1 h2 h3 h4 h5 h6 h7, of 0]
  have loop: "backup_run_loop env_read_fails 1 0 0 job_512
       = Some (- 5, job_512\<lparr>now := 6,
                 trace := [IsCancelled False, SleepNs 0, IsCancelled False, GetLength 512,
                           Readv 0 1 (- 5),
                           ErrorAction Source BLOCKDEV_ON_ERROR_REPORT True 5 BDRV_ACTION_REPORT]\<rparr>)"
    by (simp add: eval_main eval_envs)
  have retry: "map_option (\<lambda>(ret, job'). (ret, trace job'))
        (backup_run_loop env_read_fails_once 1 0 0 job_512_ignore)
       = Some (0, [IsCancelled False, SleepNs 0, IsCancelled False, GetLength 512,
                   Readv 0 1 (- 5),
                   ErrorAction Source BLOCKDEV_ON_ERROR_IGNORE True 5 BDRV_ACTION_IGNORE,
                   IsCancelled False, SleepNs 0, IsCancelled False, GetLength 512,
                   Readv 0 1 0, WriteZeroes 0 1 0])"
    by (simp add: eval_main eval_envs)
  show ?thesis by (intro conjI h1 h2 h3 h4 h5 h6 h7 inst loop retry)
qed

text \<open>
  C6 fails on the variant of \<^verbatim>\<open>src/backup.c\<close>, which has no error-action policy: its
  sweep leaves the loop on every error. With an error action that would ignore, the
  run on the source whose read fails consults nothing and completes with the error.
\<close>

theorem variant_sweep_no_error_policy_counterexample:
  "backup_start_var env_ignore_read_fails 0
     = Some (- 5, job_var_512\<lparr>bitmap_var := [1], now_var := 7,
               trace_var := [GetLength 512, GetLength 512, IsCancelled False, SleepNs 0,
                             IsCancelled False, Readv 0 128 (- 5), Completed (- 5)]\<rparr>)"
  by (simp add: eval_var eval_envs)

subsection \<open>C7\<close>

text \<open>
  C7. An invocation of \<^verbatim>\<open>backup_do_cow\<close> on an idle job returns. When it returns
  success, nothing is stored through \<^verbatim>\<open>error_is_read\<close>. When it returns an error, the
  last call of the invocation is the call that failed, with that error as its result,
  and what is stored through \<^verbatim>\<open>error_is_read\<close> (when it is not null) is whether that
  call is on the source side: the length query and the read are, the write and the
  write-zeroes are not.
\<close>

theorem which_side_failed:
  assumes "idle job"
  shows "\<exists>ret side job'. backup_do_cow e sector_num nb_sectors p job = Some (ret, side, job')
      \<and> (0 \<le> ret \<longrightarrow> side = None)
      \<and> (ret < 0 \<longrightarrow> (\<exists>b. call_side_result (last (trace job')) = Some (b, ret)
                            \<and> side = store_through p b))"
  using assms
proof (cases rule: backup_do_cow_cases[where e = e and sn = sector_num and nb = nb_sectors and p = p])
  case (length_failed len)
  then show ?thesis
    by (auto simp: cow_left_fields cow_entered_fields call_side_result_def)
next
  case (looped len ret sd job2)
  note ev = backup_do_cow_looped_events[OF looped(3)]
  note res = cow_loop_result[OF looped(3)]
  show ?thesis
  proof (cases sd)
    case None
    then show ?thesis using looped(4) res by simp
  next
    case (Some b)
    then show ?thesis using looped(4) res ev(3) by simp
  qed
qed

text \<open>
  The hypothesis of C7 holds of the job on the one-sector source: a failed read and a
  failed length query store true, a failed write-zeroes stores false, and a successful
  invocation stores nothing.
\<close>

theorem which_side_failed_witness:
  "idle job_512
   \<and> (\<exists>ret side job'. backup_do_cow env_read_fails 0 1 OUT job_512 = Some (ret, side, job')
      \<and> (0 \<le> ret \<longrightarrow> side = None)
      \<and> (ret < 0 \<longrightarrow> (\<exists>b. call_side_result (last (trace job')) = Some (b, ret)
                            \<and> side = store_through OUT b)))
   \<and> map_option (\<lambda>(ret, side, job'). (ret, side, trace job'))
        (backup_do_cow env_read_fails 0 1 OUT job_512)
       = Some (- 5, Some True, [GetLength 512, Readv 0 1 (- 5)])
   \<and> map_option (\<lambda>(ret, side, job'). (ret, side, trace job'))
        (backup_do_cow env_length_fails 0 1 OUT job_512)
       = Some (- 123, Some True, [GetLength (- 123)])
   \<and> map_option (\<lambda>(ret, side, job'). (ret, side, trace job'))
        (backup_do_cow env_write_fails 0 1 OUT job_512)
       = Some (- 28, Some False, [GetLength 512, Readv 0 1 0, WriteZeroes 0 1 (- 28)])
   \<and> map_option (\<lambda>(ret, side, job'). (ret, side, trace job'))
        (backup_do_cow env_zero 0 1 OUT job_512)
       = Some (0, None, [GetLength 512, Readv 0 1 0, WriteZeroes 0 1 0])"
proof -
  note h = idle_job_512
  have inst: "\<exists>ret side job'. backup_do_cow env_read_fails 0 1 OUT job_512 = Some (ret, side, job')
      \<and> (0 \<le> ret \<longrightarrow> side = None)
      \<and> (ret < 0 \<longrightarrow> (\<exists>b. call_side_result (last (trace job')) = Some (b, ret)
                            \<and> side = store_through OUT b))"
    using which_side_failed[OF h, of env_read_fails 0 1 OUT] .
  have run: "map_option (\<lambda>(ret, side, job'). (ret, side, trace job'))
        (backup_do_cow env_read_fails 0 1 OUT job_512)
       = Some (- 5, Some True, [GetLength 512, Readv 0 1 (- 5)])"
   "map_option (\<lambda>(ret, side, job'). (ret, side, trace job'))
        (backup_do_cow env_length_fails 0 1 OUT job_512)
       = Some (- 123, Some True, [GetLength (- 123)])"
   "map_option (\<lambda>(ret, side, job'). (ret, side, trace job'))
        (backup_do_cow env_write_fails 0 1 OUT job_512)
       = Some (- 28, Some False, [GetLength 512, Readv 0 1 0, WriteZeroes 0 1 (- 28)])"
   "map_option (\<lambda>(ret, side, job'). (ret, side, trace job'))
        (backup_do_cow env_zero 0 1 OUT job_512)
       = Some (0, None, [GetLength 512, Readv 0 1 0, WriteZeroes 0 1 0])"
    by (simp_all add: eval_main eval_envs)
  show ?thesis by (intro conjI h inst run)
qed

subsection \<open>C8\<close>

text \<open>
  C8 at a failing input of the variant of \<^verbatim>\<open>src/backup.c\<close>: on the source of one sector
  (\<open>len = 512\<close>) the run completes with success and \<open>offset = 65536\<close>, since the sweep
  adds \<^verbatim>\<open>BACKUP_CLUSTER_SIZE\<close> for the short final cluster.
\<close>

theorem variant_offset_exceeds_len:
  "backup_start_var env_zero 0
     = Some (0, job_var_512\<lparr>offset_var := 65536, sectors_read_var := 128, bitmap_var := [1],
               now_var := 7,
               trace_var := [GetLength 512, GetLength 512, IsCancelled False, SleepNs 0,
                             IsCancelled False, Readv 0 128 0, Completed 0]\<rparr>)
   \<and> len_var job_var_512 = 512"
  by (simp add: eval_var eval_envs)

subsection \<open>C9\<close>



subsection \<open>C10\<close>



end
